theory Spec2Isabelle
  imports Main
begin

section \<open>Python values and exceptions\<close>

text \<open>
  The service passes dynamically typed values around: a column holds an integer, a
  text, a byte string or \<open>None\<close>, and \<open>destroy_session\<close> is annotated \<open>int\<close> but
  receives whatever the caller hands over. Strings are byte lists, so
  \<open>password.encode()\<close> is the identity on them.
\<close>

datatype pyval = PyNone | PyInt int | PyStr string | PyBytes string

text \<open>Python truthiness, as used by \<open>if not session_id\<close>.\<close>

fun truthy :: "pyval \<Rightarrow> bool" where
  "truthy PyNone = False"
| "truthy (PyInt n) = (n \<noteq> 0)"
| "truthy (PyStr s) = (s \<noteq> [])"
| "truthy (PyBytes b) = (b \<noteq> [])"

text \<open>
  The exceptions the two modules raise. \<open>ValueError\<close> carries its message: the one
  raised by \<open>register_user\<close> names the email, the others are bare.
\<close>

datatype error = ValueError string | NoResultFound | InvalidRequestError

section \<open>The users table (db.py)\<close>

text \<open>
  Modelled from the spec: the \<open>User\<close> class of user.py, which is not among the
  sources. Its table has the columns \<open>id, email, hashed_password, session_id,
  reset_token\<close>; a column that the constructor is not given is \<open>None\<close>.
\<close>

record user =
  id_col :: pyval
  email :: pyval
  hashed_password :: pyval
  session_id :: pyval
  reset_token :: pyval

definition column_names :: "string list" where
  "column_names = [''id'', ''email'', ''hashed_password'', ''session_id'', ''reset_token'']"

text \<open>The table is the list of its rows in insertion order; keyword arguments are
  an association list in the order the caller wrote them.\<close>

type_synonym db = "user list"
type_synonym kwargs = "(string \<times> pyval) list"

fun getattr_user :: "user \<Rightarrow> string \<Rightarrow> pyval option" where
  "getattr_user u k =
     (if k = ''id'' then Some (id_col u)
      else if k = ''email'' then Some (email u)
      else if k = ''hashed_password'' then Some (hashed_password u)
      else if k = ''session_id'' then Some (session_id u)
      else if k = ''reset_token'' then Some (reset_token u)
      else None)"

fun setattr_user :: "user \<Rightarrow> string \<Rightarrow> pyval \<Rightarrow> user" where
  "setattr_user u k v =
     (if k = ''id'' then u\<lparr>id_col := v\<rparr>
      else if k = ''email'' then u\<lparr>email := v\<rparr>
      else if k = ''hashed_password'' then u\<lparr>hashed_password := v\<rparr>
      else if k = ''session_id'' then u\<lparr>session_id := v\<rparr>
      else if k = ''reset_token'' then u\<lparr>reset_token := v\<rparr>
      else u)"

text \<open>\<open>for key in kwargs.keys(): if key not in column_names: raise ...\<close>\<close>

fun has_invalid_key :: "kwargs \<Rightarrow> bool" where
  "has_invalid_key [] = False"
| "has_invalid_key ((k, v) # kw) =
     (if k \<notin> set column_names then True else has_invalid_key kw)"

text \<open>\<open>filter_by(**kwargs)\<close>: a row matches when every given column holds the given
  value. Values are compared as Python values, so an integer is never equal to a
  text.\<close>

fun matches :: "user \<Rightarrow> kwargs \<Rightarrow> bool" where
  "matches u [] = True"
| "matches u ((k, v) # kw) = (getattr_user u k = Some v \<and> matches u kw)"

text \<open>\<open>query(User).filter_by(**kwargs).first()\<close>\<close>

fun first_match :: "db \<Rightarrow> kwargs \<Rightarrow> user option" where
  "first_match [] kw = None"
| "first_match (u # us) kw = (if matches u kw then Some u else first_match us kw)"

definition find_user_by :: "db \<Rightarrow> kwargs \<Rightarrow> error + user" where
  "find_user_by d kw =
     (if kw = [] then Inl InvalidRequestError
      else if has_invalid_key kw then Inl InvalidRequestError
      else case first_match d kw of
             None \<Rightarrow> Inl NoResultFound
           | Some u \<Rightarrow> Inr u)"

text \<open>
  The primary key handed out by the table: one more than the largest integer key in
  use, starting at 1.
\<close>

fun max_id :: "db \<Rightarrow> int" where
  "max_id [] = 0"
| "max_id (u # us) = (case id_col u of PyInt n \<Rightarrow> max n (max_id us) | _ \<Rightarrow> max_id us)"

definition add_user :: "db \<Rightarrow> pyval \<Rightarrow> pyval \<Rightarrow> user \<times> db" where
  "add_user d em hp =
     (let u = \<lparr>id_col = PyInt (max_id d + 1), email = em, hashed_password = hp,
                session_id = PyNone, reset_token = PyNone\<rparr>
      in (u, d @ [u]))"

text \<open>The \<open>setattr\<close> loop of \<open>update_user\<close>, in the order of the arguments.\<close>

fun set_fields :: "user \<Rightarrow> kwargs \<Rightarrow> user" where
  "set_fields u [] = u"
| "set_fields u ((k, v) # kw) = set_fields (setattr_user u k v) kw"

text \<open>
  The row object that \<open>first()\<close> returned is changed in place and committed: the
  first matching row of the table is replaced. The commit itself is taken to
  succeed. What SQLite does with a value of another type than the column's (a numeric
  text or an integer beyond 64 bits given as id), and a commit that the table refuses
  (a key that another row has), are outside this model; the theorems below use it for
  the calls that the engine makes, which write tokens and hashes to the row of an id
  read from the table.
\<close>

fun update_first :: "db \<Rightarrow> kwargs \<Rightarrow> (user \<Rightarrow> user) \<Rightarrow> db" where
  "update_first [] kw f = []"
| "update_first (u # us) kw f =
     (if matches u kw then f u # us else u # update_first us kw f)"

definition update_user :: "db \<Rightarrow> pyval \<Rightarrow> kwargs \<Rightarrow> (error + unit) \<times> db" where
  "update_user d user_id kw =
     (case find_user_by d [(''id'', user_id)] of
        Inl e \<Rightarrow> (Inl e, d)
      | Inr u \<Rightarrow>
          if has_invalid_key kw then (Inl (ValueError []), d)
          else (Inr (), update_first d [(''id'', user_id)] (\<lambda>r. set_fields r kw)))"

section \<open>The authentication engine (auth.py)\<close>

text \<open>
  bcrypt and uuid4 are libraries outside the repository. The hasher is a parameter:
  \<open>hashpw password salt\<close> is the outcome of \<open>bcrypt.hashpw\<close>, the blob or the
  exception it raises, and \<open>checkpw password stored\<close> the outcome of
  \<open>bcrypt.checkpw\<close>. Neither module catches what the hasher raises. The salt that
  \<open>gensalt()\<close> draws and the text that \<open>str(uuid4())\<close> returns are arguments of the
  operation that draws them.
\<close>

type_synonym hasher = "string \<Rightarrow> string \<Rightarrow> error + string"
type_synonym checker = "string \<Rightarrow> pyval \<Rightarrow> error + bool"

definition hash_password_auth :: "hasher \<Rightarrow> string \<Rightarrow> string \<Rightarrow> error + pyval" where
  "hash_password_auth hashpw salt password =
     (case hashpw password salt of
        Inl e \<Rightarrow> Inl e
      | Inr blob \<Rightarrow> Inr (PyBytes blob))"

definition register_user ::
  "hasher \<Rightarrow> string \<Rightarrow> db \<Rightarrow> string \<Rightarrow> string \<Rightarrow> (error + user) \<times> db" where
  "register_user hashpw salt d em password =
     (case find_user_by d [(''email'', PyStr em)] of
        Inr u \<Rightarrow> (Inl (ValueError (''User '' @ em @ '' already exists'')), d)
      | Inl NoResultFound \<Rightarrow>
          (case hash_password_auth hashpw salt password of
             Inl e \<Rightarrow> (Inl e, d)
           | Inr hp \<Rightarrow> (let (u, d') = add_user d (PyStr em) hp in (Inr u, d')))
      | Inl e \<Rightarrow> (Inl e, d))"

definition valid_login :: "checker \<Rightarrow> db \<Rightarrow> string \<Rightarrow> string \<Rightarrow> error + bool" where
  "valid_login checkpw d em password =
     (case find_user_by d [(''email'', PyStr em)] of
        Inl NoResultFound \<Rightarrow> Inr False
      | Inl e \<Rightarrow> Inl e
      | Inr u \<Rightarrow> checkpw password (hashed_password u))"

definition create_session :: "string \<Rightarrow> db \<Rightarrow> string \<Rightarrow> (error + string option) \<times> db" where
  "create_session tok d em =
     (case find_user_by d [(''email'', PyStr em)] of
        Inl NoResultFound \<Rightarrow> (Inr None, d)
      | Inl e \<Rightarrow> (Inl e, d)
      | Inr u \<Rightarrow>
          (case update_user d (id_col u) [(''session_id'', PyStr tok)] of
             (Inl e, d') \<Rightarrow> (Inl e, d')
           | (Inr _, d') \<Rightarrow> (Inr (Some tok), d')))"

definition get_user_from_session_id :: "db \<Rightarrow> pyval \<Rightarrow> error + user option" where
  "get_user_from_session_id d sid =
     (if \<not> truthy sid then Inr None
      else case find_user_by d [(''session_id'', sid)] of
             Inl NoResultFound \<Rightarrow> Inr None
           | Inl e \<Rightarrow> Inl e
           | Inr u \<Rightarrow> Inr (Some u))"

definition destroy_session :: "db \<Rightarrow> pyval \<Rightarrow> (error + unit) \<times> db" where
  "destroy_session d user_id =
     (case find_user_by d [(''id'', user_id)] of
        Inl NoResultFound \<Rightarrow> (Inr (), d)
      | Inl e \<Rightarrow> (Inl e, d)
      | Inr u \<Rightarrow> update_user d (id_col u) [(''session_id'', PyNone)])"

definition get_reset_password_token :: "string \<Rightarrow> db \<Rightarrow> string \<Rightarrow> (error + string) \<times> db" where
  "get_reset_password_token tok d em =
     (case find_user_by d [(''email'', PyStr em)] of
        Inl NoResultFound \<Rightarrow> (Inl (ValueError []), d)
      | Inl e \<Rightarrow> (Inl e, d)
      | Inr u \<Rightarrow>
          (case update_user d (id_col u) [(''reset_token'', PyStr tok)] of
             (Inl e, d') \<Rightarrow> (Inl e, d')
           | (Inr _, d') \<Rightarrow> (Inr tok, d')))"

definition update_password ::
  "hasher \<Rightarrow> string \<Rightarrow> db \<Rightarrow> string \<Rightarrow> string \<Rightarrow> (error + unit) \<times> db" where
  "update_password hashpw salt d rtok password =
     (if rtok = [] \<or> password = [] then (Inr (), d)
      else case find_user_by d [(''reset_token'', PyStr rtok)] of
             Inl NoResultFound \<Rightarrow> (Inl (ValueError []), d)
           | Inl e \<Rightarrow> (Inl e, d)
           | Inr u \<Rightarrow>
               (case hash_password_auth hashpw salt password of
                  Inl e \<Rightarrow> (Inl e, d)
                | Inr hp \<Rightarrow>
                    update_user d (id_col u)
                      [(''hashed_password'', hp), (''reset_token'', PyNone)]))"

section \<open>The logout route (app.py)\<close>

datatype response = Abort nat | Redirect string

text \<open>
  \<open>cookie\<close> is \<open>request.cookies.get("session_id")\<close>: a text or \<open>None\<close>. A user object
  is truthy, \<open>None\<close> is not.
\<close>

definition log_out :: "db \<Rightarrow> pyval \<Rightarrow> (error + response) \<times> db" where
  "log_out d cookie =
     (if \<not> truthy cookie then (Inr (Abort 403), d)
      else case get_user_from_session_id d cookie of
             Inl e \<Rightarrow> (Inl e, d)
           | Inr None \<Rightarrow> (Inr (Abort 403), d)
           | Inr (Some u) \<Rightarrow>
               (case destroy_session d cookie of
                  (Inl e, d') \<Rightarrow> (Inl e, d')
                | (Inr _, d') \<Rightarrow> (Inr (Redirect ''/''), d')))"


section \<open>Tokens and reachable states\<close>

text \<open>
  \<open>str(uuid4())\<close> is the canonical text of a UUID: groups of 8, 4, 4, 4 and 12
  lower-case hexadecimal digits, separated by hyphens.
\<close>

definition hex_digit :: "char \<Rightarrow> bool" where
  "hex_digit c = (c \<in> set ''0123456789abcdef'')"

fun hex_run :: "nat \<Rightarrow> string \<Rightarrow> string option" where
  "hex_run 0 s = Some s"
| "hex_run (Suc n) [] = None"
| "hex_run (Suc n) (c # s) = (if hex_digit c then hex_run n s else None)"

fun uuid_groups :: "nat list \<Rightarrow> string \<Rightarrow> bool" where
  "uuid_groups [] s = False"
| "uuid_groups [n] s = (hex_run n s = Some [])"
| "uuid_groups (n # ns) s =
     (case hex_run n s of
        Some (c # r) \<Rightarrow> c = CHR ''-'' \<and> uuid_groups ns r
      | _ \<Rightarrow> False)"

definition uuid_str :: "string \<Rightarrow> bool" where
  "uuid_str s = uuid_groups [8, 4, 4, 4, 12] s"

text \<open>
  The states of the table that the engine can bring about: \<open>DB()\<close> drops and
  recreates the table, and every later change is made by one of the operations of
  \<open>Auth\<close>, called with any arguments and drawing any salt and any UUID text.
\<close>

inductive reachable :: "hasher \<Rightarrow> db \<Rightarrow> bool" for hashpw :: hasher where
  start: "reachable hashpw []"
| registered:
    "reachable hashpw d \<Longrightarrow> reachable hashpw (snd (register_user hashpw salt d em password))"
| session_created:
    "reachable hashpw d \<Longrightarrow> uuid_str tok \<Longrightarrow> reachable hashpw (snd (create_session tok d em))"
| session_destroyed:
    "reachable hashpw d \<Longrightarrow> reachable hashpw (snd (destroy_session d user_id))"
| reset_requested:
    "reachable hashpw d \<Longrightarrow> uuid_str tok \<Longrightarrow>
     reachable hashpw (snd (get_reset_password_token tok d em))"
| password_updated:
    "reachable hashpw d \<Longrightarrow>
     reachable hashpw (snd (update_password hashpw salt d rtok password))"

section \<open>The source of UUID texts and the runs of the service\<close>

text \<open>
  \<open>uuid4()\<close> draws 122 random bits, and two draws never give the same value in
  practice. The source is modelled by the number of texts drawn so far: the draw
  number \<open>n\<close> returns \<open>uuid4_text n\<close>, the number written with at least 32
  hexadecimal digits in groups of 8, 4, 4, 4 and 12, so that different draws return
  different texts.
\<close>

definition hex_char :: "nat \<Rightarrow> char" where
  "hex_char k = ''0123456789abcdef'' ! k"

function hex_digits :: "nat \<Rightarrow> string" where
  "hex_digits n =
     (if n < 16 then [hex_char n] else hex_digits (n div 16) @ [hex_char (n mod 16)])"
  by pat_completeness auto
termination
  by (relation "measure (\<lambda>n. n)") auto

fun hyphenate :: "nat list \<Rightarrow> string \<Rightarrow> string" where
  "hyphenate [] s = s"
| "hyphenate (n # ns) s = take n s @ CHR ''-'' # hyphenate ns (drop n s)"

definition uuid4_text :: "nat \<Rightarrow> string" where
  "uuid4_text n =
     (let ds = hex_digits n
      in hyphenate [8, 4, 4, 4] (replicate (32 - length ds) CHR ''0'' @ ds))"

text \<open>Reading a text back as a number; used to show that the draws differ.\<close>

definition hex_val :: "char \<Rightarrow> nat" where
  "hex_val c = length (takeWhile (\<lambda>x. x \<noteq> c) ''0123456789abcdef'')"

definition decode_step :: "nat \<Rightarrow> char \<Rightarrow> nat" where
  "decode_step a c = (if c = CHR ''-'' then a else 16 * a + hex_val c)"

definition uuid_decode :: "string \<Rightarrow> nat" where
  "uuid_decode s = foldl decode_step 0 s"

text \<open>
  The state of the service is the table together with the number of UUID texts drawn.
  \<open>create_session\<close> and \<open>get_reset_password_token\<close> call \<open>_generate_uuid()\<close>
  after the lookup by email has succeeded, and only then.
\<close>

record service =
  table :: db
  draws :: nat

definition service_create_session ::
  "service \<Rightarrow> string \<Rightarrow> (error + string option) \<times> service" where
  "service_create_session s em =
     (let (r, d') = create_session (uuid4_text (draws s)) (table s) em
      in (r, \<lparr>table = d',
              draws = (case find_user_by (table s) [(''email'', PyStr em)] of
                         Inr u \<Rightarrow> Suc (draws s)
                       | Inl e \<Rightarrow> draws s)\<rparr>))"

definition service_get_reset_password_token ::
  "service \<Rightarrow> string \<Rightarrow> (error + string) \<times> service" where
  "service_get_reset_password_token s em =
     (let (r, d') = get_reset_password_token (uuid4_text (draws s)) (table s) em
      in (r, \<lparr>table = d',
              draws = (case find_user_by (table s) [(''email'', PyStr em)] of
                         Inr u \<Rightarrow> Suc (draws s)
                       | Inl e \<Rightarrow> draws s)\<rparr>))"

text \<open>
  A run of the service: \<open>Auth()\<close> starts from the empty table, and every later state
  is the result of the calls made so far, with any arguments and any salts.
\<close>

datatype call =
    RegisterUser string string string
  | CreateSession string
  | DestroySession pyval
  | GetResetPasswordToken string
  | UpdatePassword string string string

fun step :: "hasher \<Rightarrow> service \<Rightarrow> call \<Rightarrow> service" where
  "step hashpw s (RegisterUser salt em password) =
     s\<lparr>table := snd (register_user hashpw salt (table s) em password)\<rparr>"
| "step hashpw s (CreateSession em) = snd (service_create_session s em)"
| "step hashpw s (DestroySession user_id) =
     s\<lparr>table := snd (destroy_session (table s) user_id)\<rparr>"
| "step hashpw s (GetResetPasswordToken em) = snd (service_get_reset_password_token s em)"
| "step hashpw s (UpdatePassword salt rtok password) =
     s\<lparr>table := snd (update_password hashpw salt (table s) rtok password)\<rparr>"

definition run :: "hasher \<Rightarrow> call list \<Rightarrow> service" where
  "run hashpw calls = foldl (step hashpw) \<lparr>table = [], draws = 0\<rparr> calls"

text \<open>
  What holds of the tokens in every run: a token in the table is one of the texts
  drawn so far, and no reset token is held by two rows.
\<close>

definition tokens_below :: "nat \<Rightarrow> pyval list \<Rightarrow> bool" where
  "tokens_below k vs \<longleftrightarrow> (\<forall>v\<in>set vs. v = PyNone \<or> (\<exists>j<k. v = PyStr (uuid4_text j)))"

definition unique_tokens :: "pyval list \<Rightarrow> bool" where
  "unique_tokens vs \<longleftrightarrow>
     (\<forall>i<length vs. \<forall>j<length vs. vs ! i = vs ! j \<and> vs ! i \<noteq> PyNone \<longrightarrow> i = j)"

definition service_ok :: "service \<Rightarrow> bool" where
  "service_ok s \<longleftrightarrow>
     distinct (map id_col (table s)) \<and>
     tokens_below (draws s) (map session_id (table s)) \<and>
     tokens_below (draws s) (map reset_token (table s)) \<and>
     unique_tokens (map reset_token (table s))"

section \<open>Sample data\<close>

text \<open>
  A stand-in hasher and a small table on which the theorems below are run. The
  theorems themselves hold for every hasher. Like \<open>bcrypt.hashpw\<close>, the stand-in
  raises \<open>ValueError\<close> for a password of more than 72 bytes.
\<close>

definition sample_hashpw :: hasher where
  "sample_hashpw password salt =
     (if 72 < length password
      then Inl (ValueError ''password cannot be longer than 72 bytes, truncate manually if necessary (e.g. my_password[:72])'')
      else Inr (salt @ password))"

definition sample_checkpw :: checker where
  "sample_checkpw password stored = Inr (stored = PyBytes (''salt'' @ password))"

definition alice :: user where
  "alice = \<lparr>id_col = PyInt 1, email = PyStr ''a@x.com'', hashed_password = PyBytes ''saltpw1'',
            session_id = PyNone, reset_token = PyNone\<rparr>"

definition bob :: user where
  "bob = \<lparr>id_col = PyInt 2, email = PyStr ''b@x.com'', hashed_password = PyBytes ''saltpw2'',
          session_id = PyNone, reset_token = PyNone\<rparr>"

definition token1 :: string where
  "token1 = ''123e4567-e89b-42d3-a456-426614174000''"

definition token2 :: string where
  "token2 = ''9b2f0c1a-77de-4c55-8f10-0a1b2c3d4e5f''"

definition bob_pending :: user where
  "bob_pending = bob\<lparr>session_id := PyStr token1, reset_token := PyStr token2\<rparr>"

definition long_password :: string where
  "long_password = replicate 73 CHR ''x''"

definition reset_pending :: "call list" where
  "reset_pending =
     [RegisterUser ''salt'' ''a@x.com'' ''pw1'', RegisterUser ''salt'' ''b@x.com'' ''pw2'',
      GetResetPasswordToken ''b@x.com'']"

definition two_users :: "call list" where
  "two_users = [RegisterUser ''salt'' ''a@x.com'' ''pw1'', RegisterUser ''salt'' ''b@x.com'' ''pw2'']"

section \<open>Facts about the table operations\<close>

lemma has_invalid_key_iff:
  "has_invalid_key kw \<longleftrightarrow> (\<exists>k\<in>fst ` set kw. k \<notin> set column_names)"
  by (induction kw) auto

lemma first_match_find: "first_match d kw = List.find (\<lambda>u. matches u kw) d"
  by (induction d) auto

lemma first_match_None_iff: "first_match d kw = None \<longleftrightarrow> (\<forall>u\<in>set d. \<not> matches u kw)"
  by (induction d) auto

lemma first_match_index:
  "first_match d kw = Some u \<longleftrightarrow>
     (\<exists>n<length d. matches (d ! n) kw \<and> u = d ! n \<and> (\<forall>m<n. \<not> matches (d ! m) kw))"
  by (simp add: first_match_find find_Some_iff)

lemma update_first_index:
  "n < length d \<Longrightarrow> matches (d ! n) kw \<Longrightarrow> \<forall>m<n. \<not> matches (d ! m) kw \<Longrightarrow>
   update_first d kw f = d[n := f (d ! n)]"
proof (induction d arbitrary: n)
  case Nil
  then show ?case by simp
next
  case (Cons a d)
  show ?case
  proof (cases n)
    case 0
    with Cons.prems show ?thesis by simp
  next
    case (Suc k)
    with Cons.prems have a: "\<not> matches a kw" by auto
    from Suc Cons.prems have "update_first d kw f = d[k := f (d ! k)]"
      by (intro Cons.IH) auto
    with a Suc show ?thesis by simp
  qed
qed

lemma matches_id: "matches u [(''id'', v)] \<longleftrightarrow> id_col u = v"
  by simp

lemma matches_email: "matches u [(''email'', v)] \<longleftrightarrow> email u = v"
  by simp

lemma matches_session: "matches u [(''session_id'', v)] \<longleftrightarrow> session_id u = v"
  by simp

lemma matches_reset: "matches u [(''reset_token'', v)] \<longleftrightarrow> reset_token u = v"
  by simp

lemma find_user_by_single:
  "k \<in> set column_names \<Longrightarrow>
   find_user_by d [(k, v)] =
     (case first_match d [(k, v)] of None \<Rightarrow> Inl NoResultFound | Some u \<Rightarrow> Inr u)"
  by (simp add: find_user_by_def)

lemma find_by_id:
  "find_user_by d [(''id'', v)] =
     (case first_match d [(''id'', v)] of None \<Rightarrow> Inl NoResultFound | Some u \<Rightarrow> Inr u)"
  by (rule find_user_by_single) (simp add: column_names_def)

lemma find_by_email:
  "find_user_by d [(''email'', v)] =
     (case first_match d [(''email'', v)] of None \<Rightarrow> Inl NoResultFound | Some u \<Rightarrow> Inr u)"
  by (rule find_user_by_single) (simp add: column_names_def)

lemma find_by_session:
  "find_user_by d [(''session_id'', v)] =
     (case first_match d [(''session_id'', v)] of None \<Rightarrow> Inl NoResultFound | Some u \<Rightarrow> Inr u)"
  by (rule find_user_by_single) (simp add: column_names_def)

lemma find_by_reset:
  "find_user_by d [(''reset_token'', v)] =
     (case first_match d [(''reset_token'', v)] of None \<Rightarrow> Inl NoResultFound | Some u \<Rightarrow> Inr u)"
  by (rule find_user_by_single) (simp add: column_names_def)

lemma update_first_same: "update_first d kw (\<lambda>r. r) = d"
  by (induction d) auto

section \<open>Password reset with an empty argument\<close>

text \<open>
  C8. \<open>update_password\<close> called with an empty reset token, or with an empty new
  password, returns without raising and leaves the table as it was.
\<close>

theorem update_password_empty_noop:
  "update_password hashpw salt d [] password = (Inr (), d) \<and>
   update_password hashpw salt d rtok [] = (Inr (), d)"
  by (simp add: update_password_def)

theorem update_password_empty_noop_witness:
  "update_password sample_hashpw ''salt'' [alice, bob] [] ''pw3'' = (Inr (), [alice, bob]) \<and>
   update_password sample_hashpw ''salt'' [alice, bob] ''tok'' [] = (Inr (), [alice, bob])"
  using update_password_empty_noop [of sample_hashpw "''salt''" "[alice, bob]" "''pw3''" "''tok''"]
  by simp

section \<open>Updating with no fields\<close>

text \<open>
  C10. \<open>update_user\<close> accepts an empty set of fields: for an id that a row has, the
  call succeeds and the table is unchanged, whereas \<open>find_user_by\<close> with no criteria
  raises \<open>InvalidRequestError\<close>. \<open>update_user\<close> raises \<open>ValueError\<close> only when one of
  the given keys is not a column.
\<close>

theorem update_user_no_fields:
  "((\<exists>u\<in>set d. id_col u = i) \<longrightarrow> update_user d i [] = (Inr (), d)) \<and>
   find_user_by d [] = Inl InvalidRequestError \<and>
   (\<forall>m. fst (update_user d i kw) = Inl (ValueError m) \<longrightarrow>
        (\<exists>k\<in>fst ` set kw. k \<notin> set column_names))"
proof (intro conjI impI allI)
  assume "\<exists>u\<in>set d. id_col u = i"
  then have "first_match d [(''id'', i)] \<noteq> None"
    by (simp add: first_match_None_iff)
  then show "update_user d i [] = (Inr (), d)"
    by (auto simp: update_user_def find_by_id update_first_same)
next
  show "find_user_by d [] = Inl InvalidRequestError"
    by (simp add: find_user_by_def)
next
  fix m
  assume "fst (update_user d i kw) = Inl (ValueError m)"
  then have "has_invalid_key kw"
    by (auto simp: update_user_def find_by_id split: option.splits if_splits)
  then show "\<exists>k\<in>fst ` set kw. k \<notin> set column_names"
    by (simp add: has_invalid_key_iff)
qed

theorem update_user_no_fields_witness:
  "update_user [alice, bob] (PyInt 2) [] = (Inr (), [alice, bob]) \<and>
   find_user_by [alice, bob] [] = Inl InvalidRequestError \<and>
   fst (update_user [alice, bob] (PyInt 2) [(''nickname'', PyStr ''b'')]) = Inl (ValueError [])"
proof -
  have a: "\<exists>u\<in>set [alice, bob]. id_col u = PyInt 2"
    by (simp add: bob_def)
  have b: "fst (update_user [alice, bob] (PyInt 2) [(''nickname'', PyStr ''b'')]) = Inl (ValueError [])"
    by (simp add: update_user_def find_user_by_def column_names_def alice_def bob_def)
  from update_user_no_fields [of "[alice, bob]" "PyInt 2" "[(''nickname'', PyStr ''b'')]"] a b
  show ?thesis by blast
qed

section \<open>Registration and login\<close>

lemma exists_email_iff:
  "(\<exists>u\<in>set d. email u = v) \<longleftrightarrow> first_match d [(''email'', v)] \<noteq> None"
  by (simp add: first_match_None_iff)

text \<open>
  C3 (as amended). When the table already holds a row with the email,
  \<open>register_user\<close> raises the \<open>ValueError\<close> that names the email and the table, and
  so the stored hash of that row, is unchanged. When no row has the email and the
  hasher returns a blob for the password, it appends and returns a new row with that
  email, the blob, and no session id and no reset token. When no row has the email
  and the hasher raises, that exception leaves \<open>register_user\<close> and the table is
  unchanged.
\<close>

theorem register_user_spec:
  "((\<exists>u\<in>set d. email u = PyStr em) \<longrightarrow>
      register_user hashpw salt d em password =
        (Inl (ValueError (''User '' @ em @ '' already exists'')), d)) \<and>
   (\<not> (\<exists>u\<in>set d. email u = PyStr em) \<longrightarrow>
      (\<forall>blob. hashpw password salt = Inr blob \<longrightarrow>
         (\<exists>u. register_user hashpw salt d em password = (Inr u, d @ [u]) \<and>
              email u = PyStr em \<and> hashed_password u = PyBytes blob \<and>
              session_id u = PyNone \<and> reset_token u = PyNone)) \<and>
      (\<forall>e. hashpw password salt = Inl e \<longrightarrow>
         register_user hashpw salt d em password = (Inl e, d)))"
proof (intro conjI impI allI)
  assume "\<exists>u\<in>set d. email u = PyStr em"
  then obtain r where "first_match d [(''email'', PyStr em)] = Some r"
    using exists_email_iff by blast
  then show "register_user hashpw salt d em password =
      (Inl (ValueError (''User '' @ em @ '' already exists'')), d)"
    by (simp add: register_user_def find_by_email)
next
  fix blob
  assume "\<not> (\<exists>u\<in>set d. email u = PyStr em)" and "hashpw password salt = Inr blob"
  moreover from this have "first_match d [(''email'', PyStr em)] = None"
    using exists_email_iff by blast
  ultimately show "\<exists>u. register_user hashpw salt d em password = (Inr u, d @ [u]) \<and>
           email u = PyStr em \<and> hashed_password u = PyBytes blob \<and>
           session_id u = PyNone \<and> reset_token u = PyNone"
    by (simp add: register_user_def find_by_email add_user_def hash_password_auth_def Let_def)
next
  fix e
  assume "\<not> (\<exists>u\<in>set d. email u = PyStr em)" and "hashpw password salt = Inl e"
  moreover from this have "first_match d [(''email'', PyStr em)] = None"
    using exists_email_iff by blast
  ultimately show "register_user hashpw salt d em password = (Inl e, d)"
    by (simp add: register_user_def find_by_email hash_password_auth_def)
qed

theorem register_user_spec_witness:
  "register_user sample_hashpw ''salt'' [alice, bob] ''a@x.com'' ''other'' =
     (Inl (ValueError ''User a@x.com already exists''), [alice, bob]) \<and>
   (\<exists>u. register_user sample_hashpw ''salt'' [alice, bob] ''c@x.com'' ''pw3'' =
          (Inr u, [alice, bob] @ [u]) \<and>
        email u = PyStr ''c@x.com'' \<and> hashed_password u = PyBytes ''saltpw3'' \<and>
        session_id u = PyNone \<and> reset_token u = PyNone) \<and>
   register_user sample_hashpw ''salt'' [alice, bob] ''c@x.com'' long_password =
     (Inl (ValueError ''password cannot be longer than 72 bytes, truncate manually if necessary (e.g. my_password[:72])''), [alice, bob])"
proof -
  have a: "\<exists>u\<in>set [alice, bob]. email u = PyStr ''a@x.com''"
    by (simp add: alice_def)
  have b: "\<not> (\<exists>u\<in>set [alice, bob]. email u = PyStr ''c@x.com'')"
    by (simp add: alice_def bob_def)
  have ok: "sample_hashpw ''pw3'' ''salt'' = Inr ''saltpw3''"
    by (simp add: sample_hashpw_def)
  have bad: "sample_hashpw long_password ''salt'' =
      Inl (ValueError ''password cannot be longer than 72 bytes, truncate manually if necessary (e.g. my_password[:72])'')"
    by (simp add: sample_hashpw_def long_password_def)
  from a register_user_spec [of "[alice, bob]" "''a@x.com''" sample_hashpw "''salt''" "''other''"]
  have 1: "register_user sample_hashpw ''salt'' [alice, bob] ''a@x.com'' ''other'' =
     (Inl (ValueError ''User a@x.com already exists''), [alice, bob])"
    by simp
  from b ok register_user_spec [of "[alice, bob]" "''c@x.com''" sample_hashpw "''salt''" "''pw3''"]
  have 2: "\<exists>u. register_user sample_hashpw ''salt'' [alice, bob] ''c@x.com'' ''pw3'' =
          (Inr u, [alice, bob] @ [u]) \<and>
        email u = PyStr ''c@x.com'' \<and> hashed_password u = PyBytes ''saltpw3'' \<and>
        session_id u = PyNone \<and> reset_token u = PyNone"
    by blast
  from b bad
    register_user_spec [of "[alice, bob]" "''c@x.com''" sample_hashpw "''salt''" long_password]
  have 3: "register_user sample_hashpw ''salt'' [alice, bob] ''c@x.com'' long_password =
     (Inl (ValueError ''password cannot be longer than 72 bytes, truncate manually if necessary (e.g. my_password[:72])''), [alice, bob])"
    by blast
  from 1 2 3 show ?thesis by blast
qed

text \<open>
  No row has the email, and yet no row is created: the hasher raises for the password
  of 73 bytes, and nothing in \<open>register_user\<close> catches it.
\<close>

theorem register_user_hasher_raises:
  "register_user sample_hashpw ''salt'' [alice] ''b@x.com'' long_password =
     (Inl (ValueError ''password cannot be longer than 72 bytes, truncate manually if necessary (e.g. my_password[:72])''), [alice])"
  by (simp add: register_user_def find_by_email hash_password_auth_def sample_hashpw_def
      long_password_def alice_def)

text \<open>
  C5. \<open>valid_login\<close> does not raise for an unknown email: with no row for the
  email it returns \<open>False\<close>. With a row for the email it returns exactly what the
  checker returns for the password and the stored hash of the row found, so a wrong
  password and an unknown email both give \<open>False\<close>.
\<close>

theorem valid_login_spec:
  "((\<forall>u\<in>set d. email u \<noteq> PyStr em) \<longrightarrow> valid_login checkpw d em password = Inr False) \<and>
   ((\<exists>u\<in>set d. email u = PyStr em) \<longrightarrow>
      (\<exists>u. find_user_by d [(''email'', PyStr em)] = Inr u \<and> u \<in> set d \<and> email u = PyStr em \<and>
           valid_login checkpw d em password = checkpw password (hashed_password u)))"
proof (intro conjI impI)
  assume "\<forall>u\<in>set d. email u \<noteq> PyStr em"
  then have "first_match d [(''email'', PyStr em)] = None"
    by (simp add: first_match_None_iff)
  then show "valid_login checkpw d em password = Inr False"
    by (simp add: valid_login_def find_by_email)
next
  assume "\<exists>u\<in>set d. email u = PyStr em"
  then obtain r where r: "first_match d [(''email'', PyStr em)] = Some r"
    using exists_email_iff by blast
  then have "r \<in> set d" "email r = PyStr em"
    by (auto simp: first_match_index)
  with r show "\<exists>u. find_user_by d [(''email'', PyStr em)] = Inr u \<and> u \<in> set d \<and>
      email u = PyStr em \<and> valid_login checkpw d em password = checkpw password (hashed_password u)"
    by (simp add: valid_login_def find_by_email)
qed

theorem valid_login_spec_witness:
  "valid_login sample_checkpw [alice, bob] ''c@x.com'' ''pw1'' = Inr False \<and>
   valid_login sample_checkpw [alice, bob] ''a@x.com'' ''pw2'' = Inr False \<and>
   valid_login sample_checkpw [alice, bob] ''a@x.com'' ''pw1'' = Inr True"
proof -
  have a: "\<forall>u\<in>set [alice, bob]. email u \<noteq> PyStr ''c@x.com''"
    by (simp add: alice_def bob_def)
  have b: "\<exists>u\<in>set [alice, bob]. email u = PyStr ''a@x.com''"
    by (simp add: alice_def)
  have f: "find_user_by [alice, bob] [(''email'', PyStr ''a@x.com'')] = Inr alice"
    by (simp add: find_by_email alice_def)
  from a valid_login_spec [of "[alice, bob]" "''c@x.com''" sample_checkpw "''pw1''"]
  have 1: "valid_login sample_checkpw [alice, bob] ''c@x.com'' ''pw1'' = Inr False"
    by blast
  from b f valid_login_spec [of "[alice, bob]" "''a@x.com''" sample_checkpw "''pw2''"]
  have 2: "valid_login sample_checkpw [alice, bob] ''a@x.com'' ''pw2'' = Inr False"
    by (auto simp: sample_checkpw_def alice_def)
  from b f valid_login_spec [of "[alice, bob]" "''a@x.com''" sample_checkpw "''pw1''"]
  have 3: "valid_login sample_checkpw [alice, bob] ''a@x.com'' ''pw1'' = Inr True"
    by (auto simp: sample_checkpw_def alice_def)
  from 1 2 3 show ?thesis by blast
qed

section \<open>Updating a row\<close>

lemma getattr_setattr_other:
  "k' \<noteq> k \<Longrightarrow> getattr_user (setattr_user u k v) k' = getattr_user u k'"
  by auto

lemma getattr_set_fields_other:
  "k \<notin> fst ` set kw \<Longrightarrow> getattr_user (set_fields u kw) k = getattr_user u k"
proof (induction kw arbitrary: u)
  case Nil
  then show ?case by simp
next
  case (Cons p kw)
  obtain k' v' where p: "p = (k', v')" by (cases p)
  with Cons.prems have "k' \<noteq> k" "k \<notin> fst ` set kw" by auto
  then have "getattr_user (set_fields (setattr_user u k' v') kw) k = getattr_user (setattr_user u k' v') k"
    using Cons.IH by blast
  also have "\<dots> = getattr_user u k"
    using \<open>k' \<noteq> k\<close> by (intro getattr_setattr_other) auto
  finally show ?case using p by (simp del: getattr_user.simps setattr_user.simps)
qed

lemma exists_id_iff:
  "(\<exists>u\<in>set d. id_col u = i) \<longleftrightarrow> first_match d [(''id'', i)] \<noteq> None"
  by (simp add: first_match_None_iff)

lemma update_user_failure:
  "fst (update_user d i kw) = Inl e \<Longrightarrow> snd (update_user d i kw) = d"
  by (auto simp: update_user_def split: sum.splits if_splits)

lemma update_user_success:
  assumes "fst (update_user d i kw) = Inr ()"
  shows "\<exists>n<length d. id_col (d ! n) = i \<and> (\<forall>m<n. id_col (d ! m) \<noteq> i) \<and>
           \<not> has_invalid_key kw \<and>
           snd (update_user d i kw) = d[n := set_fields (d ! n) kw]"
proof -
  from assms obtain r where r: "first_match d [(''id'', i)] = Some r"
    by (auto simp: update_user_def find_by_id split: option.splits)
  from assms r have ok: "\<not> has_invalid_key kw"
    by (auto simp: update_user_def find_by_id split: if_splits)
  from r obtain n where n: "n < length d" "matches (d ! n) [(''id'', i)]"
      "\<forall>m<n. \<not> matches (d ! m) [(''id'', i)]"
    unfolding first_match_index by blast
  then have "update_first d [(''id'', i)] (\<lambda>r. set_fields r kw) = d[n := set_fields (d ! n) kw]"
    by (rule update_first_index)
  with r ok have "snd (update_user d i kw) = d[n := set_fields (d ! n) kw]"
    by (simp add: update_user_def find_by_id)
  with n ok show ?thesis
    unfolding matches_id by blast
qed


section \<open>Rows addressed by position\<close>

lemma first_match_at:
  "n < length d \<Longrightarrow> matches (d ! n) kw \<Longrightarrow> \<forall>m<n. \<not> matches (d ! m) kw \<Longrightarrow>
   first_match d kw = Some (d ! n)"
  unfolding first_match_index by blast

lemma map_col_update: "f r = f (d ! n) \<Longrightarrow> map f (d[n := r]) = map f d"
  by (induction d arbitrary: n) (auto split: nat.splits)

lemma map_col_nth: "map f d' = map f d \<Longrightarrow> n < length d \<Longrightarrow> f (d' ! n) = f (d ! n)"
  by (metis length_map nth_map)

lemma distinct_ids_first:
  assumes "distinct (map id_col d)" "n < length d"
  shows "\<forall>m<n. \<not> matches (d ! m) [(''id'', id_col (d ! n))]"
proof (intro allI impI)
  fix m assume m: "m < n"
  with assms have len: "m < length (map id_col d)" "n < length (map id_col d)"
    by auto
  from m have "m \<noteq> n" by simp
  with assms(1) len have "map id_col d ! m \<noteq> map id_col d ! n"
    using nth_eq_iff_index_eq by blast
  with len show "\<not> matches (d ! m) [(''id'', id_col (d ! n))]"
    by simp
qed

lemma update_user_at:
  assumes "distinct (map id_col d)" "n < length d" "\<not> has_invalid_key kw"
  shows "update_user d (id_col (d ! n)) kw = (Inr (), d[n := set_fields (d ! n) kw])"
proof -
  let ?kw = "[(''id'', id_col (d ! n))]"
  have here: "matches (d ! n) ?kw" by simp
  have before: "\<forall>m<n. \<not> matches (d ! m) ?kw"
    using assms(1,2) by (rule distinct_ids_first)
  have "first_match d ?kw = Some (d ! n)"
    using assms(2) here before by (rule first_match_at)
  moreover have "update_first d ?kw (\<lambda>r. set_fields r kw) = d[n := set_fields (d ! n) kw]"
    using assms(2) here before by (rule update_first_index)
  ultimately show ?thesis
    using assms(3) by (simp add: update_user_def find_by_id)
qed

section \<open>Invariants of the reachable states\<close>

lemma max_id_ge: "u \<in> set d \<Longrightarrow> id_col u = PyInt n \<Longrightarrow> n \<le> max_id d"
  by (induction d) (auto split: pyval.splits)

lemma id_set_fields: "''id'' \<notin> fst ` set kw \<Longrightarrow> id_col (set_fields r kw) = id_col r"
  using getattr_set_fields_other [of "''id''" kw r] by simp

lemma update_user_ids:
  assumes "''id'' \<notin> fst ` set kw"
  shows "map id_col (snd (update_user d i kw)) = map id_col d"
proof (cases "fst (update_user d i kw)")
  case (Inl e)
  then show ?thesis by (simp add: update_user_failure)
next
  case (Inr x)
  then have "fst (update_user d i kw) = Inr ()" by simp
  then obtain n where "snd (update_user d i kw) = d[n := set_fields (d ! n) kw]"
    using update_user_success by blast
  with assms show ?thesis
    by (simp add: map_col_update id_set_fields)
qed

lemma register_user_ids:
  "map id_col (snd (register_user hashpw salt d em password)) = map id_col d \<or>
   map id_col (snd (register_user hashpw salt d em password)) = map id_col d @ [PyInt (max_id d + 1)]"
  by (auto simp: register_user_def add_user_def Let_def split: sum.splits error.splits)

lemma create_session_ids: "map id_col (snd (create_session tok d em)) = map id_col d"
proof (cases "find_user_by d [(''email'', PyStr em)]")
  case (Inl e)
  then show ?thesis
    by (simp add: create_session_def split: error.splits)
next
  case (Inr u)
  then have "snd (create_session tok d em) = snd (update_user d (id_col u) [(''session_id'', PyStr tok)])"
    by (simp add: create_session_def split: prod.splits sum.splits)
  then show ?thesis
    by (simp add: update_user_ids)
qed

lemma destroy_session_ids: "map id_col (snd (destroy_session d i)) = map id_col d"
proof (cases "find_user_by d [(''id'', i)]")
  case (Inl e)
  then show ?thesis
    by (simp add: destroy_session_def split: error.splits)
next
  case (Inr u)
  then have "snd (destroy_session d i) = snd (update_user d (id_col u) [(''session_id'', PyNone)])"
    by (simp add: destroy_session_def split: prod.splits sum.splits)
  then show ?thesis
    by (simp add: update_user_ids)
qed

lemma get_reset_password_token_ids:
  "map id_col (snd (get_reset_password_token tok d em)) = map id_col d"
proof (cases "find_user_by d [(''email'', PyStr em)]")
  case (Inl e)
  then show ?thesis
    by (simp add: get_reset_password_token_def split: error.splits)
next
  case (Inr u)
  then have "snd (get_reset_password_token tok d em) = snd (update_user d (id_col u) [(''reset_token'', PyStr tok)])"
    by (simp add: get_reset_password_token_def split: prod.splits sum.splits)
  then show ?thesis
    by (simp add: update_user_ids)
qed

lemma update_password_ids:
  "map id_col (snd (update_password hashpw salt d rtok password)) = map id_col d"
proof (cases "rtok = [] \<or> password = []")
  case True
  then show ?thesis
    by (auto simp: update_password_def)
next
  case False
  show ?thesis
  proof (cases "find_user_by d [(''reset_token'', PyStr rtok)]")
    case (Inl e)
    with False show ?thesis
      by (simp add: update_password_def split: error.splits)
  next
    case found: (Inr u)
    show ?thesis
    proof (cases "hash_password_auth hashpw salt password")
      case (Inl e)
      with False found show ?thesis
        by (simp add: update_password_def)
    next
      case (Inr hp)
      with False found have "snd (update_password hashpw salt d rtok password) =
          snd (update_user d (id_col u) [(''hashed_password'', hp), (''reset_token'', PyNone)])"
        by (simp add: update_password_def)
      then show ?thesis
        by (simp add: update_user_ids)
    qed
  qed
qed

lemma reachable_ids:
  "reachable hashpw d \<Longrightarrow> distinct (map id_col d) \<and> (\<forall>u\<in>set d. \<exists>n. id_col u = PyInt n)"
proof (induction rule: reachable.induct)
  case start
  then show ?case by simp
next
  case (registered d salt em password)
  have fresh: "PyInt (max_id d + 1) \<notin> set (map id_col d)"
  proof
    assume "PyInt (max_id d + 1) \<in> set (map id_col d)"
    then obtain u where "u \<in> set d" "id_col u = PyInt (max_id d + 1)"
      by auto
    then have "max_id d + 1 \<le> max_id d"
      by (rule max_id_ge)
    then show False by simp
  qed
  let ?d = "snd (register_user hashpw salt d em password)"
  from register_user_ids [of hashpw salt d em password]
  have "distinct (map id_col ?d) \<and> (\<forall>v\<in>set (map id_col ?d). \<exists>n. v = PyInt n)"
  proof
    assume "map id_col ?d = map id_col d"
    with registered.IH show ?thesis by auto
  next
    assume "map id_col ?d = map id_col d @ [PyInt (max_id d + 1)]"
    with registered.IH fresh show ?thesis by auto
  qed
  then show ?case by auto
next
  case (session_created d tok em)
  have "map id_col (snd (create_session tok d em)) = map id_col d"
    by (rule create_session_ids)
  with session_created.IH show ?case
    by (metis (no_types, lifting) image_iff list.set_map)
next
  case (session_destroyed d user_id)
  have "map id_col (snd (destroy_session d user_id)) = map id_col d"
    by (rule destroy_session_ids)
  with session_destroyed.IH show ?case
    by (metis (no_types, lifting) image_iff list.set_map)
next
  case (reset_requested d tok em)
  have "map id_col (snd (get_reset_password_token tok d em)) = map id_col d"
    by (rule get_reset_password_token_ids)
  with reset_requested.IH show ?case
    by (metis (no_types, lifting) image_iff list.set_map)
next
  case (password_updated d salt rtok password)
  have "map id_col (snd (update_password hashpw salt d rtok password)) = map id_col d"
    by (rule update_password_ids)
  with password_updated.IH show ?case
    by (metis (no_types, lifting) image_iff list.set_map)
qed

section \<open>Logging out\<close>

lemma uuid_str_nonempty: "uuid_str s \<Longrightarrow> s \<noteq> []"
  by (auto simp: uuid_str_def eval_nat_numeral)

lemma uuid_token1: "uuid_str token1"
  unfolding token1_def by code_simp

lemma uuid_token2: "uuid_str token2"
  unfolding token2_def by code_simp

lemma reachable_alice: "reachable sample_hashpw [alice]"
proof -
  have "reachable sample_hashpw (snd (register_user sample_hashpw ''salt'' [] ''a@x.com'' ''pw1''))"
    by (intro reachable.registered reachable.start)
  moreover have "snd (register_user sample_hashpw ''salt'' [] ''a@x.com'' ''pw1'') = [alice]"
    by (simp add: register_user_def find_by_email add_user_def hash_password_auth_def Let_def
        sample_hashpw_def alice_def)
  ultimately show ?thesis by simp
qed

lemma reachable_alice_bob: "reachable sample_hashpw [alice, bob]"
proof -
  have "reachable sample_hashpw
          (snd (register_user sample_hashpw ''salt'' [alice] ''b@x.com'' ''pw2''))"
    by (intro reachable.registered reachable_alice)
  moreover have "snd (register_user sample_hashpw ''salt'' [alice] ''b@x.com'' ''pw2'') = [alice, bob]"
    by (simp add: register_user_def find_by_email add_user_def hash_password_auth_def Let_def
        sample_hashpw_def alice_def bob_def)
  ultimately show ?thesis by simp
qed

lemma create_session_sample:
  "create_session token1 [alice, bob] ''b@x.com'' =
     (Inr (Some token1), [alice, bob\<lparr>session_id := PyStr token1\<rparr>])"
  by (simp add: create_session_def update_user_def find_by_email find_by_id column_names_def
      alice_def bob_def)

lemma reachable_logged_in:
  "reachable sample_hashpw [alice, bob\<lparr>session_id := PyStr token1\<rparr>]"
proof -
  have "reachable sample_hashpw (snd (create_session token1 [alice, bob] ''b@x.com''))"
    by (intro reachable.session_created reachable_alice_bob uuid_token1)
  then show ?thesis
    by (simp add: create_session_sample)
qed

text \<open>
  C9. \<open>destroy_session\<close> looks its argument up in the \<open>id\<close> column. The keys of a
  reachable table are integers, and an integer is never equal to a UUID text, so
  \<open>destroy_session\<close> called with a session token leaves the table unchanged. The
  logout route passes the cookie, which is the session token, so when it answers
  with the redirect the table is unchanged, the row still carries the token and
  \<open>get_user_from_session_id\<close> still returns it.
\<close>

theorem destroy_session_with_token:
  assumes "reachable hashpw d" and "uuid_str tok"
  shows "destroy_session d (PyStr tok) = (Inr (), d) \<and>
         (\<forall>u. get_user_from_session_id d (PyStr tok) = Inr (Some u) \<longrightarrow>
            log_out d (PyStr tok) = (Inr (Redirect ''/''), d) \<and>
            session_id u = PyStr tok \<and>
            get_user_from_session_id (snd (log_out d (PyStr tok))) (PyStr tok) = Inr (Some u))"
proof -
  from assms(1) have "\<forall>u\<in>set d. \<exists>n. id_col u = PyInt n"
    using reachable_ids by blast
  then have "\<forall>u\<in>set d. \<not> matches u [(''id'', PyStr tok)]"
    by auto
  then have "first_match d [(''id'', PyStr tok)] = None"
    by (simp only: first_match_None_iff)
  then have destroy: "destroy_session d (PyStr tok) = (Inr (), d)"
    by (simp add: destroy_session_def find_by_id)
  have "truthy (PyStr tok)"
    using assms(2) uuid_str_nonempty by simp
  have route: "log_out d (PyStr tok) = (Inr (Redirect ''/''), d) \<and> session_id u = PyStr tok \<and>
      get_user_from_session_id (snd (log_out d (PyStr tok))) (PyStr tok) = Inr (Some u)"
    if u: "get_user_from_session_id d (PyStr tok) = Inr (Some u)" for u
  proof -
    from u \<open>truthy (PyStr tok)\<close> have "first_match d [(''session_id'', PyStr tok)] = Some u"
      by (auto simp: get_user_from_session_id_def find_by_session split: option.splits)
    then have sid: "session_id u = PyStr tok"
      by (auto simp: first_match_index)
    from u destroy \<open>truthy (PyStr tok)\<close>
    have out: "log_out d (PyStr tok) = (Inr (Redirect ''/''), d)"
      by (simp add: log_out_def)
    with u sid show ?thesis by simp
  qed
  from destroy route show ?thesis by blast
qed

theorem destroy_session_with_token_witness:
  "reachable sample_hashpw [alice, bob\<lparr>session_id := PyStr token1\<rparr>] \<and> uuid_str token1 \<and>
   get_user_from_session_id [alice, bob\<lparr>session_id := PyStr token1\<rparr>] (PyStr token1) =
     Inr (Some (bob\<lparr>session_id := PyStr token1\<rparr>)) \<and>
   destroy_session [alice, bob\<lparr>session_id := PyStr token1\<rparr>] (PyStr token1) =
     (Inr (), [alice, bob\<lparr>session_id := PyStr token1\<rparr>]) \<and>
   log_out [alice, bob\<lparr>session_id := PyStr token1\<rparr>] (PyStr token1) =
     (Inr (Redirect ''/''), [alice, bob\<lparr>session_id := PyStr token1\<rparr>]) \<and>
   get_user_from_session_id
     (snd (log_out [alice, bob\<lparr>session_id := PyStr token1\<rparr>] (PyStr token1))) (PyStr token1) =
     Inr (Some (bob\<lparr>session_id := PyStr token1\<rparr>))"
proof -
  let ?d = "[alice, bob\<lparr>session_id := PyStr token1\<rparr>]"
  have ne: "token1 \<noteq> []"
    by (simp add: token1_def)
  have found: "get_user_from_session_id ?d (PyStr token1) =
      Inr (Some (bob\<lparr>session_id := PyStr token1\<rparr>))"
    using ne by (simp add: get_user_from_session_id_def find_by_session alice_def bob_def)
  from destroy_session_with_token [OF reachable_logged_in uuid_token1] found
    reachable_logged_in uuid_token1
  show ?thesis by blast
qed

section \<open>Completing a password reset\<close>

lemma update_password_at:
  assumes "distinct (map id_col d)" "n < length d" "reset_token (d ! n) = PyStr rtok"
    "\<forall>m<n. reset_token (d ! m) \<noteq> PyStr rtok" "rtok \<noteq> []" "password \<noteq> []"
    "hashpw password salt = Inr blob"
  shows "update_password hashpw salt d rtok password =
           (Inr (), d[n := (d ! n)\<lparr>hashed_password := PyBytes blob, reset_token := PyNone\<rparr>])"
proof -
  let ?kw = "[(''hashed_password'', PyBytes blob), (''reset_token'', PyNone)]"
  have "first_match d [(''reset_token'', PyStr rtok)] = Some (d ! n)"
    using assms(2,3,4) by (intro first_match_at) auto
  then have "update_password hashpw salt d rtok password = update_user d (id_col (d ! n)) ?kw"
    using assms(5,6,7) by (simp add: update_password_def find_by_reset hash_password_auth_def)
  moreover have "\<not> has_invalid_key ?kw"
    by (simp add: column_names_def)
  then have "update_user d (id_col (d ! n)) ?kw = (Inr (), d[n := set_fields (d ! n) ?kw])"
    using assms(1,2) by (intro update_user_at)
  moreover have "set_fields (d ! n) ?kw =
      (d ! n)\<lparr>hashed_password := PyBytes blob, reset_token := PyNone\<rparr>"
    by simp
  ultimately show ?thesis by simp
qed

lemma update_password_unknown:
  assumes "rtok \<noteq> []" "password \<noteq> []" "\<forall>u\<in>set d. reset_token u \<noteq> PyStr rtok"
  shows "update_password hashpw salt d rtok password = (Inl (ValueError []), d)"
proof -
  from assms(3) have "first_match d [(''reset_token'', PyStr rtok)] = None"
    by (simp add: first_match_None_iff)
  with assms(1,2) show ?thesis
    by (simp add: update_password_def find_by_reset)
qed

lemma update_password_found:
  assumes "update_password hashpw salt d rtok password = (Inr (), d')"
    and "rtok \<noteq> []" "password \<noteq> []"
  shows "\<exists>u blob. first_match d [(''reset_token'', PyStr rtok)] = Some u \<and>
           hashpw password salt = Inr blob \<and>
           update_user d (id_col u) [(''hashed_password'', PyBytes blob), (''reset_token'', PyNone)] =
             (Inr (), d')"
proof (cases "first_match d [(''reset_token'', PyStr rtok)]")
  case None
  with assms show ?thesis
    by (simp add: update_password_def find_by_reset)
next
  case (Some u)
  show ?thesis
  proof (cases "hashpw password salt")
    case (Inl e)
    with assms Some show ?thesis
      by (simp add: update_password_def find_by_reset hash_password_auth_def)
  next
    case (Inr blob)
    with assms Some show ?thesis
      by (simp add: update_password_def find_by_reset hash_password_auth_def)
  qed
qed

lemma update_password_result:
  assumes "update_password hashpw salt d rtok password = (Inr (), d')"
  shows "d' = d \<or>
         (\<exists>n<length d. \<exists>blob. hashpw password salt = Inr blob \<and>
            d' = d[n := (d ! n)\<lparr>hashed_password := PyBytes blob, reset_token := PyNone\<rparr>])"
proof (cases "rtok = [] \<or> password = []")
  case True
  with assms show ?thesis
    by (auto simp: update_password_def)
next
  case False
  with update_password_found [OF assms]
  obtain u :: user and blob where blob: "hashpw password salt = Inr blob"
    and u: "update_user d (id_col u)
              [(''hashed_password'', PyBytes blob), (''reset_token'', PyNone)] = (Inr (), d')"
    by blast
  let ?kw = "[(''hashed_password'', PyBytes blob), (''reset_token'', PyNone)]"
  from u have "fst (update_user d (id_col u) ?kw) = Inr ()" by simp
  then obtain n where n: "n < length d"
      "snd (update_user d (id_col u) ?kw) = d[n := set_fields (d ! n) ?kw]"
    using update_user_success by blast
  have "set_fields (d ! n) ?kw =
      (d ! n)\<lparr>hashed_password := PyBytes blob, reset_token := PyNone\<rparr>"
    by simp
  with u n blob show ?thesis by auto
qed

lemma session_lookup_stable:
  assumes "map session_id d' = map session_id d"
    and "get_user_from_session_id d sid = Inr (Some u)"
  shows "\<exists>n<length d. u = d ! n \<and> get_user_from_session_id d' sid = Inr (Some (d' ! n))"
proof -
  from assms(2) have t: "truthy sid"
    by (auto simp: get_user_from_session_id_def split: if_splits)
  with assms(2) have "first_match d [(''session_id'', sid)] = Some u"
    by (auto simp: get_user_from_session_id_def find_by_session split: option.splits)
  then obtain n where n: "n < length d" "u = d ! n" "session_id (d ! n) = sid"
      "\<forall>m<n. session_id (d ! m) \<noteq> sid"
    unfolding first_match_index matches_session by blast
  from assms(1) have len: "length d' = length d"
    using map_eq_imp_length_eq by blast
  have same: "session_id (d' ! m) = session_id (d ! m)" if "m < length d" for m
    using assms(1) that by (rule map_col_nth)
  have "first_match d' [(''session_id'', sid)] = Some (d' ! n)"
  proof (rule first_match_at)
    show "n < length d'" using n(1) len by simp
    show "matches (d' ! n) [(''session_id'', sid)]"
      using same [OF n(1)] n(3) by simp
    show "\<forall>m<n. \<not> matches (d' ! m) [(''session_id'', sid)]"
      using same n(1,4) by simp
  qed
  with t have "get_user_from_session_id d' sid = Inr (Some (d' ! n))"
    by (simp add: get_user_from_session_id_def find_by_session)
  with n show ?thesis by blast
qed

text \<open>
  C6. A call of \<open>update_password\<close> that returns changes at most one row, and in that
  row only \<open>hashed_password\<close>, which becomes the blob that the hasher returned, and
  \<open>reset_token\<close>: the \<open>id\<close>, \<open>email\<close> and \<open>session_id\<close> columns of the whole
  table are as before. When the ids of the rows are distinct and both arguments are
  non-empty, the changed row is the first one that holds the token. A session token
  that resolved to a row before the call resolves afterwards to the row at the same
  position, with the same id, email and session id.
\<close>

theorem update_password_frame:
  assumes "update_password hashpw salt d rtok password = (Inr (), d')"
  shows "map id_col d' = map id_col d \<and> map email d' = map email d \<and>
         map session_id d' = map session_id d \<and>
         (d' = d \<or>
          (\<exists>n<length d. \<exists>blob. hashpw password salt = Inr blob \<and>
             d' = d[n := (d ! n)\<lparr>hashed_password := PyBytes blob, reset_token := PyNone\<rparr>])) \<and>
         (distinct (map id_col d) \<and> rtok \<noteq> [] \<and> password \<noteq> [] \<longrightarrow>
          (\<exists>n<length d. \<exists>blob. hashpw password salt = Inr blob \<and>
             reset_token (d ! n) = PyStr rtok \<and>
             (\<forall>m<n. reset_token (d ! m) \<noteq> PyStr rtok) \<and>
             d' = d[n := (d ! n)\<lparr>hashed_password := PyBytes blob, reset_token := PyNone\<rparr>])) \<and>
         (\<forall>sid u. get_user_from_session_id d sid = Inr (Some u) \<longrightarrow>
            (\<exists>u'. get_user_from_session_id d' sid = Inr (Some u') \<and> id_col u' = id_col u \<and>
                  email u' = email u \<and> session_id u' = session_id u))"
proof -
  note shape = update_password_result [OF assms]
  from shape have ids: "map id_col d' = map id_col d"
    by (auto simp: map_col_update)
  from shape have emails: "map email d' = map email d"
    by (auto simp: map_col_update)
  from shape have sessions: "map session_id d' = map session_id d"
    by (auto simp: map_col_update)
  have matched: "\<exists>n<length d. \<exists>blob. hashpw password salt = Inr blob \<and>
             reset_token (d ! n) = PyStr rtok \<and>
             (\<forall>m<n. reset_token (d ! m) \<noteq> PyStr rtok) \<and>
             d' = d[n := (d ! n)\<lparr>hashed_password := PyBytes blob, reset_token := PyNone\<rparr>]"
    if h: "distinct (map id_col d) \<and> rtok \<noteq> [] \<and> password \<noteq> []"
  proof -
    from update_password_found [OF assms] h
    obtain u blob where u: "first_match d [(''reset_token'', PyStr rtok)] = Some u"
      and blob: "hashpw password salt = Inr blob"
      by blast
    from u obtain n where n: "n < length d" "reset_token (d ! n) = PyStr rtok"
        "\<forall>m<n. reset_token (d ! m) \<noteq> PyStr rtok"
      unfolding first_match_index matches_reset by blast
    with h blob have "update_password hashpw salt d rtok password =
        (Inr (), d[n := (d ! n)\<lparr>hashed_password := PyBytes blob, reset_token := PyNone\<rparr>])"
      by (intro update_password_at) auto
    with assms n blob show ?thesis by auto
  qed
  have resolve: "\<exists>u'. get_user_from_session_id d' sid = Inr (Some u') \<and> id_col u' = id_col u \<and>
                  email u' = email u \<and> session_id u' = session_id u"
    if u: "get_user_from_session_id d sid = Inr (Some u)" for sid u
  proof -
    from session_lookup_stable [OF sessions u]
    obtain n where n: "n < length d" "u = d ! n"
        "get_user_from_session_id d' sid = Inr (Some (d' ! n))"
      by blast
    from n(1) have "id_col (d' ! n) = id_col (d ! n)" "email (d' ! n) = email (d ! n)"
        "session_id (d' ! n) = session_id (d ! n)"
      using ids emails sessions by (auto intro: map_col_nth)
    with n show ?thesis by simp
  qed
  from ids emails sessions shape matched resolve show ?thesis by blast
qed

lemma update_password_sample:
  "update_password sample_hashpw ''salt'' [alice, bob_pending] token2 ''new'' =
     (Inr (), [alice, bob_pending\<lparr>hashed_password := PyBytes ''saltnew'', reset_token := PyNone\<rparr>])"
  by (simp add: update_password_def find_by_reset update_user_def find_by_id column_names_def
      hash_password_auth_def sample_hashpw_def alice_def bob_def bob_pending_def token2_def)

theorem update_password_frame_witness:
  "update_password sample_hashpw ''salt'' [alice, bob_pending] token2 ''new'' =
     (Inr (), [alice, bob_pending\<lparr>hashed_password := PyBytes ''saltnew'', reset_token := PyNone\<rparr>]) \<and>
   get_user_from_session_id [alice, bob_pending] (PyStr token1) = Inr (Some bob_pending) \<and>
   (\<exists>u'. get_user_from_session_id
           [alice, bob_pending\<lparr>hashed_password := PyBytes ''saltnew'', reset_token := PyNone\<rparr>]
           (PyStr token1) = Inr (Some u') \<and>
         id_col u' = id_col bob_pending \<and> email u' = email bob_pending \<and>
         session_id u' = session_id bob_pending)"
proof -
  have before: "get_user_from_session_id [alice, bob_pending] (PyStr token1) = Inr (Some bob_pending)"
    by (simp add: get_user_from_session_id_def find_by_session alice_def bob_def bob_pending_def
        token1_def)
  from update_password_frame [OF update_password_sample] before
  have "\<exists>u'. get_user_from_session_id
           [alice, bob_pending\<lparr>hashed_password := PyBytes ''saltnew'', reset_token := PyNone\<rparr>]
           (PyStr token1) = Inr (Some u') \<and>
         id_col u' = id_col bob_pending \<and> email u' = email bob_pending \<and>
         session_id u' = session_id bob_pending"
    by blast
  with update_password_sample before show ?thesis by blast
qed

section \<open>Different draws give different texts\<close>

lemma hex_val_char: "k < 16 \<Longrightarrow> hex_val (hex_char k) = k"
  by (auto simp: hex_val_def hex_char_def less_Suc_eq eval_nat_numeral)

lemma hex_char_not_hyphen: "k < 16 \<Longrightarrow> hex_char k \<noteq> CHR ''-''"
  by (auto simp: hex_char_def less_Suc_eq eval_nat_numeral)

lemma decode_step_char: "k < 16 \<Longrightarrow> decode_step a (hex_char k) = 16 * a + k"
  by (simp add: decode_step_def hex_val_char hex_char_not_hyphen)

lemma decode_hex_digits: "foldl decode_step 0 (hex_digits n) = n"
proof (induction n rule: hex_digits.induct)
  case (1 n)
  show ?case
  proof (cases "n < 16")
    case True
    then show ?thesis
      by (subst hex_digits.simps) (simp add: decode_step_char)
  next
    case False
    with "1" have "foldl decode_step 0 (hex_digits (n div 16)) = n div 16"
      by simp
    with False show ?thesis
      by (subst hex_digits.simps) (simp add: decode_step_char)
  qed
qed

lemma decode_zeros: "foldl decode_step 0 (replicate k CHR ''0'') = 0"
  by (induction k) (simp_all add: decode_step_def hex_val_def)

lemma decode_hyphenate: "foldl decode_step a (hyphenate ns s) = foldl decode_step a s"
proof (induction ns arbitrary: a s)
  case Nil
  then show ?case by simp
next
  case (Cons n ns)
  have "foldl decode_step a (hyphenate (n # ns) s) =
        foldl decode_step (foldl decode_step a (take n s)) (hyphenate ns (drop n s))"
    by (simp add: decode_step_def)
  also have "\<dots> = foldl decode_step (foldl decode_step a (take n s)) (drop n s)"
    by (rule Cons.IH)
  also have "\<dots> = foldl decode_step a (take n s @ drop n s)"
    by (simp only: foldl_append)
  also have "\<dots> = foldl decode_step a s"
    by (simp only: append_take_drop_id)
  finally show ?case .
qed

lemma uuid_decode_text: "uuid_decode (uuid4_text n) = n"
  unfolding uuid_decode_def uuid4_text_def Let_def
  by (simp only: decode_hyphenate foldl_append decode_zeros decode_hex_digits)

lemma uuid4_text_inj: "uuid4_text m = uuid4_text n \<Longrightarrow> m = n"
  by (metis uuid_decode_text)

lemma hyphenate_nonempty: "hyphenate (n # ns) s \<noteq> []"
  by simp

lemma uuid4_text_nonempty: "uuid4_text n \<noteq> []"
  unfolding uuid4_text_def Let_def by (rule hyphenate_nonempty)


section \<open>The tokens in a run\<close>

lemma tokens_below_mono: "tokens_below k vs \<Longrightarrow> tokens_below (Suc k) vs"
  unfolding tokens_below_def using less_SucI by blast

lemma tokens_below_none:
  assumes "tokens_below k vs"
  shows "tokens_below k (vs[n := PyNone])"
  unfolding tokens_below_def
proof
  fix v assume "v \<in> set (vs[n := PyNone])"
  then have "v = PyNone \<or> v \<in> set vs"
    using set_update_subset_insert [of vs n PyNone] by blast
  with assms show "v = PyNone \<or> (\<exists>j<k. v = PyStr (uuid4_text j))"
    unfolding tokens_below_def by blast
qed

lemma tokens_below_new:
  assumes "tokens_below k vs"
  shows "tokens_below (Suc k) (vs[n := PyStr (uuid4_text k)])"
  unfolding tokens_below_def
proof
  fix v assume "v \<in> set (vs[n := PyStr (uuid4_text k)])"
  then have "v = PyStr (uuid4_text k) \<or> v \<in> set vs"
    using set_update_subset_insert [of vs n "PyStr (uuid4_text k)"] by blast
  then show "v = PyNone \<or> (\<exists>j<Suc k. v = PyStr (uuid4_text j))"
  proof
    assume "v = PyStr (uuid4_text k)"
    then show ?thesis by blast
  next
    assume "v \<in> set vs"
    with assms have "v = PyNone \<or> (\<exists>j<k. v = PyStr (uuid4_text j))"
      unfolding tokens_below_def by blast
    then show ?thesis
      using less_SucI by blast
  qed
qed

lemma tokens_below_snoc: "tokens_below k vs \<Longrightarrow> tokens_below k (vs @ [PyNone])"
  unfolding tokens_below_def by simp

lemma unique_tokens_none:
  assumes "unique_tokens vs"
  shows "unique_tokens (vs[n := PyNone])"
  unfolding unique_tokens_def
proof (intro allI impI)
  fix i j
  assume i: "i < length (vs[n := PyNone])" and j: "j < length (vs[n := PyNone])"
    and eq: "vs[n := PyNone] ! i = vs[n := PyNone] ! j \<and> vs[n := PyNone] ! i \<noteq> PyNone"
  from i eq have "i \<noteq> n" by auto
  moreover from i j eq have "j \<noteq> n" by auto
  ultimately have "vs ! i = vs ! j \<and> vs ! i \<noteq> PyNone"
    using eq by (metis nth_list_update_neq)
  with assms i j show "i = j"
    unfolding unique_tokens_def by auto
qed

lemma unique_tokens_new:
  assumes "unique_tokens vs" "tokens_below k vs"
  shows "unique_tokens (vs[n := PyStr (uuid4_text k)])"
proof -
  have old: "vs ! i \<noteq> PyStr (uuid4_text k)" if "i < length vs" for i
  proof
    assume eq: "vs ! i = PyStr (uuid4_text k)"
    from that have "vs ! i \<in> set vs" by simp
    with assms(2) eq obtain j where "j < k" "uuid4_text k = uuid4_text j"
      unfolding tokens_below_def by auto
    then show False
      using uuid4_text_inj by blast
  qed
  show ?thesis
    unfolding unique_tokens_def
  proof (intro allI impI)
    fix i j
    assume i: "i < length (vs[n := PyStr (uuid4_text k)])"
      and j: "j < length (vs[n := PyStr (uuid4_text k)])"
      and eq: "vs[n := PyStr (uuid4_text k)] ! i = vs[n := PyStr (uuid4_text k)] ! j \<and>
               vs[n := PyStr (uuid4_text k)] ! i \<noteq> PyNone"
    show "i = j"
    proof (cases "i = n"; cases "j = n")
      assume "i = n" "j = n"
      then show ?thesis by simp
    next
      assume "i = n" "j \<noteq> n"
      with i j eq old [of j] show ?thesis by (auto simp: nth_list_update)
    next
      assume "i \<noteq> n" "j = n"
      with i j eq old [of i] show ?thesis by (auto simp: nth_list_update)
    next
      assume "i \<noteq> n" "j \<noteq> n"
      with i j eq have "i < length vs" "j < length vs" "vs ! i = vs ! j \<and> vs ! i \<noteq> PyNone"
        by auto
      with assms(1) show ?thesis
        unfolding unique_tokens_def by blast
    qed
  qed
qed

lemma unique_tokens_snoc:
  assumes "unique_tokens vs"
  shows "unique_tokens (vs @ [PyNone])"
  unfolding unique_tokens_def
proof (intro allI impI)
  fix i j
  assume i: "i < length (vs @ [PyNone])" and j: "j < length (vs @ [PyNone])"
    and eq: "(vs @ [PyNone]) ! i = (vs @ [PyNone]) ! j \<and> (vs @ [PyNone]) ! i \<noteq> PyNone"
  from eq have "i \<noteq> length vs" "j \<noteq> length vs"
    by auto
  with i j have len: "i < length vs" "j < length vs"
    by auto
  with eq have "vs ! i = vs ! j \<and> vs ! i \<noteq> PyNone"
    by (auto simp: nth_append)
  with len assms show "i = j"
    unfolding unique_tokens_def by blast
qed

lemma update_user_shape:
  "snd (update_user d i kw) = d \<or>
   (\<exists>n<length d. snd (update_user d i kw) = d[n := set_fields (d ! n) kw])"
proof (cases "fst (update_user d i kw)")
  case (Inl e)
  then show ?thesis by (simp add: update_user_failure)
next
  case (Inr x)
  then have "fst (update_user d i kw) = Inr ()" by simp
  then show ?thesis
    using update_user_success by blast
qed

lemma update_session_cols:
  assumes "d' = snd (update_user d i [(''session_id'', v)])"
  shows "map id_col d' = map id_col d \<and> map reset_token d' = map reset_token d \<and>
         (map session_id d' = map session_id d \<or>
          (\<exists>n. map session_id d' = (map session_id d)[n := v]))"
proof -
  from update_user_shape [of d i "[(''session_id'', v)]"] assms
  have "d' = d \<or> (\<exists>n<length d. d' = d[n := set_fields (d ! n) [(''session_id'', v)]])"
    by simp
  then show ?thesis
  proof
    assume "d' = d"
    then show ?thesis by simp
  next
    assume "\<exists>n<length d. d' = d[n := set_fields (d ! n) [(''session_id'', v)]]"
    then obtain n where n: "d' = d[n := set_fields (d ! n) [(''session_id'', v)]]"
      by blast
    have "map id_col d' = map id_col d" "map reset_token d' = map reset_token d"
      using n by (simp_all add: map_col_update)
    moreover have "map session_id d' = (map session_id d)[n := v]"
      using n by (simp add: map_update)
    ultimately show ?thesis by blast
  qed
qed

lemma update_reset_cols:
  assumes "d' = snd (update_user d i [(''reset_token'', v)])"
  shows "map id_col d' = map id_col d \<and> map session_id d' = map session_id d \<and>
         (map reset_token d' = map reset_token d \<or>
          (\<exists>n. map reset_token d' = (map reset_token d)[n := v]))"
proof -
  from update_user_shape [of d i "[(''reset_token'', v)]"] assms
  have "d' = d \<or> (\<exists>n<length d. d' = d[n := set_fields (d ! n) [(''reset_token'', v)]])"
    by simp
  then show ?thesis
  proof
    assume "d' = d"
    then show ?thesis by simp
  next
    assume "\<exists>n<length d. d' = d[n := set_fields (d ! n) [(''reset_token'', v)]]"
    then obtain n where n: "d' = d[n := set_fields (d ! n) [(''reset_token'', v)]]"
      by blast
    have "map id_col d' = map id_col d" "map session_id d' = map session_id d"
      using n by (simp_all add: map_col_update)
    moreover have "map reset_token d' = (map reset_token d)[n := v]"
      using n by (simp add: map_update)
    ultimately show ?thesis by blast
  qed
qed

lemma update_password_cols:
  assumes "d' = snd (update_user d i [(''hashed_password'', hp), (''reset_token'', v)])"
  shows "map id_col d' = map id_col d \<and> map session_id d' = map session_id d \<and>
         (map reset_token d' = map reset_token d \<or>
          (\<exists>n. map reset_token d' = (map reset_token d)[n := v]))"
proof -
  from update_user_shape [of d i "[(''hashed_password'', hp), (''reset_token'', v)]"] assms
  have "d' = d \<or> (\<exists>n<length d. d' = d[n := set_fields (d ! n) [(''hashed_password'', hp), (''reset_token'', v)]])"
    by simp
  then show ?thesis
  proof
    assume "d' = d"
    then show ?thesis by simp
  next
    assume "\<exists>n<length d. d' = d[n := set_fields (d ! n) [(''hashed_password'', hp), (''reset_token'', v)]]"
    then obtain n where n: "d' = d[n := set_fields (d ! n) [(''hashed_password'', hp), (''reset_token'', v)]]"
      by blast
    have "map id_col d' = map id_col d" "map session_id d' = map session_id d"
      using n by (simp_all add: map_col_update)
    moreover have "map reset_token d' = (map reset_token d)[n := v]"
      using n by (simp add: map_update)
    ultimately show ?thesis by blast
  qed
qed

lemma register_user_shape:
  "snd (register_user hashpw salt d em password) = d \<or>
   (\<exists>u. snd (register_user hashpw salt d em password) = d @ [u] \<and>
        id_col u = PyInt (max_id d + 1) \<and> session_id u = PyNone \<and> reset_token u = PyNone)"
  by (auto simp: register_user_def add_user_def Let_def split: sum.splits error.splits)

lemma fresh_id: "PyInt (max_id d + 1) \<notin> set (map id_col d)"
proof
  assume "PyInt (max_id d + 1) \<in> set (map id_col d)"
  then obtain u where "u \<in> set d" "id_col u = PyInt (max_id d + 1)"
    by auto
  then have "max_id d + 1 \<le> max_id d"
    by (rule max_id_ge)
  then show False by simp
qed

lemma service_ok_register:
  assumes "service_ok s"
  shows "service_ok (s\<lparr>table := snd (register_user hashpw salt (table s) em password)\<rparr>)"
  using register_user_shape [of hashpw salt "table s" em password] assms
    fresh_id [of "table s"]
  by (auto simp: service_ok_def tokens_below_snoc unique_tokens_snoc)

lemma service_create_session_cases:
  "snd (service_create_session s em) = s \<or>
   (\<exists>i. snd (service_create_session s em) =
      \<lparr>table = snd (update_user (table s) i [(''session_id'', PyStr (uuid4_text (draws s)))]),
       draws = Suc (draws s)\<rparr>)"
proof (cases "find_user_by (table s) [(''email'', PyStr em)]")
  case (Inl e)
  then show ?thesis
    by (simp add: service_create_session_def create_session_def split: error.splits)
next
  case (Inr u)
  then have "snd (service_create_session s em) =
      \<lparr>table = snd (update_user (table s) (id_col u)
                       [(''session_id'', PyStr (uuid4_text (draws s)))]),
       draws = Suc (draws s)\<rparr>"
    by (simp add: service_create_session_def create_session_def split: prod.splits sum.splits)
  then show ?thesis by blast
qed

lemma service_ok_create_session:
  assumes "service_ok s"
  shows "service_ok (snd (service_create_session s em))"
proof -
  from service_create_session_cases [of s em]
  show ?thesis
  proof
    assume "snd (service_create_session s em) = s"
    with assms show ?thesis by simp
  next
    assume "\<exists>i. snd (service_create_session s em) =
      \<lparr>table = snd (update_user (table s) i [(''session_id'', PyStr (uuid4_text (draws s)))]),
       draws = Suc (draws s)\<rparr>"
    then obtain i where eq: "snd (service_create_session s em) =
      \<lparr>table = snd (update_user (table s) i [(''session_id'', PyStr (uuid4_text (draws s)))]),
       draws = Suc (draws s)\<rparr>"
      by blast
    let ?d = "snd (update_user (table s) i [(''session_id'', PyStr (uuid4_text (draws s)))])"
    have cols: "map id_col ?d = map id_col (table s) \<and>
        map reset_token ?d = map reset_token (table s) \<and>
        (map session_id ?d = map session_id (table s) \<or>
         (\<exists>n. map session_id ?d = (map session_id (table s))[n := PyStr (uuid4_text (draws s))]))"
      by (rule update_session_cols) simp
    have "tokens_below (Suc (draws s)) (map session_id ?d)"
      using cols assms tokens_below_mono tokens_below_new
      unfolding service_ok_def by metis
    with cols assms eq show ?thesis
      by (simp add: service_ok_def tokens_below_mono)
  qed
qed

lemma service_ok_destroy_session:
  assumes "service_ok s"
  shows "service_ok (s\<lparr>table := snd (destroy_session (table s) v)\<rparr>)"
proof -
  have "snd (destroy_session (table s) v) = table s \<or>
    (\<exists>i. snd (destroy_session (table s) v) =
       snd (update_user (table s) i [(''session_id'', PyNone)]))"
    by (cases "find_user_by (table s) [(''id'', v)]")
      (auto simp: destroy_session_def split: error.splits)
  then show ?thesis
  proof
    assume "snd (destroy_session (table s) v) = table s"
    with assms show ?thesis by simp
  next
    assume "\<exists>i. snd (destroy_session (table s) v) =
       snd (update_user (table s) i [(''session_id'', PyNone)])"
    then obtain i where eq: "snd (destroy_session (table s) v) =
       snd (update_user (table s) i [(''session_id'', PyNone)])"
      by blast
    let ?d = "snd (update_user (table s) i [(''session_id'', PyNone)])"
    have cols: "map id_col ?d = map id_col (table s) \<and>
        map reset_token ?d = map reset_token (table s) \<and>
        (map session_id ?d = map session_id (table s) \<or>
         (\<exists>n. map session_id ?d = (map session_id (table s))[n := PyNone]))"
      by (rule update_session_cols) simp
    have "tokens_below (draws s) (map session_id ?d)"
      using cols assms tokens_below_none
      unfolding service_ok_def by metis
    with cols assms eq show ?thesis
      by (simp add: service_ok_def)
  qed
qed

lemma service_get_reset_password_token_cases:
  "snd (service_get_reset_password_token s em) = s \<or>
   (\<exists>i. snd (service_get_reset_password_token s em) =
      \<lparr>table = snd (update_user (table s) i [(''reset_token'', PyStr (uuid4_text (draws s)))]),
       draws = Suc (draws s)\<rparr>)"
proof (cases "find_user_by (table s) [(''email'', PyStr em)]")
  case (Inl e)
  then show ?thesis
    by (simp add: service_get_reset_password_token_def get_reset_password_token_def
        split: error.splits)
next
  case (Inr u)
  then have "snd (service_get_reset_password_token s em) =
      \<lparr>table = snd (update_user (table s) (id_col u)
                       [(''reset_token'', PyStr (uuid4_text (draws s)))]),
       draws = Suc (draws s)\<rparr>"
    by (simp add: service_get_reset_password_token_def get_reset_password_token_def
        split: prod.splits sum.splits)
  then show ?thesis by blast
qed

lemma service_ok_get_reset_password_token:
  assumes "service_ok s"
  shows "service_ok (snd (service_get_reset_password_token s em))"
proof -
  from service_get_reset_password_token_cases [of s em]
  show ?thesis
  proof
    assume "snd (service_get_reset_password_token s em) = s"
    with assms show ?thesis by simp
  next
    assume "\<exists>i. snd (service_get_reset_password_token s em) =
      \<lparr>table = snd (update_user (table s) i [(''reset_token'', PyStr (uuid4_text (draws s)))]),
       draws = Suc (draws s)\<rparr>"
    then obtain i where eq: "snd (service_get_reset_password_token s em) =
      \<lparr>table = snd (update_user (table s) i [(''reset_token'', PyStr (uuid4_text (draws s)))]),
       draws = Suc (draws s)\<rparr>"
      by blast
    let ?d = "snd (update_user (table s) i [(''reset_token'', PyStr (uuid4_text (draws s)))])"
    have cols: "map id_col ?d = map id_col (table s) \<and>
        map session_id ?d = map session_id (table s) \<and>
        (map reset_token ?d = map reset_token (table s) \<or>
         (\<exists>n. map reset_token ?d = (map reset_token (table s))[n := PyStr (uuid4_text (draws s))]))"
      by (rule update_reset_cols) simp
    have below: "tokens_below (Suc (draws s)) (map reset_token ?d)"
      using cols assms tokens_below_mono tokens_below_new
      unfolding service_ok_def by metis
    have uniq: "unique_tokens (map reset_token ?d)"
      using cols assms unique_tokens_new
      unfolding service_ok_def by metis
    from cols assms eq below uniq show ?thesis
      by (simp add: service_ok_def tokens_below_mono)
  qed
qed

lemma service_ok_update_password:
  assumes "service_ok s"
  shows "service_ok (s\<lparr>table := snd (update_password hashpw salt (table s) rtok password)\<rparr>)"
proof -
  have "snd (update_password hashpw salt (table s) rtok password) = table s \<or>
    (\<exists>i hp. snd (update_password hashpw salt (table s) rtok password) =
       snd (update_user (table s) i [(''hashed_password'', hp), (''reset_token'', PyNone)]))"
    by (cases "find_user_by (table s) [(''reset_token'', PyStr rtok)]";
        cases "hash_password_auth hashpw salt password")
      (auto simp: update_password_def split: error.splits)
  then show ?thesis
  proof
    assume "snd (update_password hashpw salt (table s) rtok password) = table s"
    with assms show ?thesis by simp
  next
    assume "\<exists>i hp. snd (update_password hashpw salt (table s) rtok password) =
       snd (update_user (table s) i [(''hashed_password'', hp), (''reset_token'', PyNone)])"
    then obtain i hp where eq: "snd (update_password hashpw salt (table s) rtok password) =
       snd (update_user (table s) i [(''hashed_password'', hp), (''reset_token'', PyNone)])"
      by blast
    let ?d = "snd (update_user (table s) i [(''hashed_password'', hp), (''reset_token'', PyNone)])"
    have cols: "map id_col ?d = map id_col (table s) \<and>
        map session_id ?d = map session_id (table s) \<and>
        (map reset_token ?d = map reset_token (table s) \<or>
         (\<exists>n. map reset_token ?d = (map reset_token (table s))[n := PyNone]))"
      by (rule update_password_cols) simp
    have below: "tokens_below (draws s) (map reset_token ?d)"
      using cols assms tokens_below_none
      unfolding service_ok_def by metis
    have uniq: "unique_tokens (map reset_token ?d)"
      using cols assms unique_tokens_none
      unfolding service_ok_def by metis
    from cols assms eq below uniq show ?thesis
      by (simp add: service_ok_def)
  qed
qed

lemma service_ok_step: "service_ok s \<Longrightarrow> service_ok (step hashpw s c)"
  by (cases c)
    (simp_all add: service_ok_register service_ok_create_session service_ok_destroy_session
      service_ok_get_reset_password_token service_ok_update_password)

lemma run_snoc: "run hashpw (calls @ [c]) = step hashpw (run hashpw calls) c"
  by (simp add: run_def)

lemma service_ok_run: "service_ok (run hashpw calls)"
proof (induction calls rule: rev_induct)
  case Nil
  show ?case
    by (simp add: run_def service_ok_def tokens_below_def unique_tokens_def)
next
  case (snoc c calls)
  then show ?case
    by (simp only: run_snoc service_ok_step)
qed

section \<open>A reset token is used once\<close>

lemma run_two_users: "run sample_hashpw two_users = \<lparr>table = [alice, bob], draws = 0\<rparr>"
  by (simp add: run_def two_users_def register_user_def find_by_email add_user_def
      hash_password_auth_def sample_hashpw_def Let_def alice_def bob_def)

lemma run_reset_pending:
  "run sample_hashpw reset_pending =
     \<lparr>table = [alice, bob\<lparr>reset_token := PyStr (uuid4_text 0)\<rparr>], draws = Suc 0\<rparr>"
proof -
  have "run sample_hashpw reset_pending =
      run sample_hashpw (two_users @ [GetResetPasswordToken ''b@x.com''])"
    by (simp add: reset_pending_def two_users_def)
  also have "\<dots> =
      snd (service_get_reset_password_token \<lparr>table = [alice, bob], draws = 0\<rparr> ''b@x.com'')"
    by (simp only: run_snoc run_two_users step.simps)
  also have "\<dots> = \<lparr>table = [alice, bob\<lparr>reset_token := PyStr (uuid4_text 0)\<rparr>], draws = Suc 0\<rparr>"
    by (simp add: service_get_reset_password_token_def get_reset_password_token_def
        update_user_def find_by_email find_by_id column_names_def alice_def bob_def)
  finally show ?thesis .
qed

text \<open>
  C1 (as amended). With a non-empty reset token that no row holds and a non-empty
  password, \<open>update_password\<close> raises \<open>ValueError\<close> and leaves the table as it was.
  In every run of the service, after a call with a non-empty token and a non-empty
  password has returned, no row holds the token any more, so a second call with the
  same token and any non-empty password raises \<open>ValueError\<close> and changes nothing.
\<close>

theorem update_password_token_once:
  "(rtok \<noteq> [] \<and> password \<noteq> [] \<and> (\<forall>u\<in>set d. reset_token u \<noteq> PyStr rtok) \<longrightarrow>
      update_password hashpw salt d rtok password = (Inl (ValueError []), d)) \<and>
   (rtok \<noteq> [] \<and> password \<noteq> [] \<and> password' \<noteq> [] \<and>
    update_password hashpw salt (table (run hashpw calls)) rtok password = (Inr (), d') \<longrightarrow>
      (\<forall>u\<in>set d'. reset_token u \<noteq> PyStr rtok) \<and>
      update_password hashpw salt' d' rtok password' = (Inl (ValueError []), d'))"
proof (rule conjI; rule impI)
  assume "rtok \<noteq> [] \<and> password \<noteq> [] \<and> (\<forall>u\<in>set d. reset_token u \<noteq> PyStr rtok)"
  then show "update_password hashpw salt d rtok password = (Inl (ValueError []), d)"
    by (intro update_password_unknown) auto
next
  let ?d = "table (run hashpw calls)"
  assume h: "rtok \<noteq> [] \<and> password \<noteq> [] \<and> password' \<noteq> [] \<and>
    update_password hashpw salt ?d rtok password = (Inr (), d')"
  then have ne: "rtok \<noteq> []" "password \<noteq> []" "password' \<noteq> []"
    and ran: "update_password hashpw salt ?d rtok password = (Inr (), d')"
    by auto
  have ok: "service_ok (run hashpw calls)"
    by (rule service_ok_run)
  then have dist: "distinct (map id_col ?d)" and uniq: "unique_tokens (map reset_token ?d)"
    by (simp_all add: service_ok_def)
  from update_password_found [OF ran ne(1,2)]
  obtain u blob where u: "first_match ?d [(''reset_token'', PyStr rtok)] = Some u"
    and blob: "hashpw password salt = Inr blob"
    by blast
  from u obtain n where n: "n < length ?d" "reset_token (?d ! n) = PyStr rtok"
      "\<forall>m<n. reset_token (?d ! m) \<noteq> PyStr rtok"
    unfolding first_match_index matches_reset by blast
  let ?r = "(?d ! n)\<lparr>hashed_password := PyBytes blob, reset_token := PyNone\<rparr>"
  have "update_password hashpw salt ?d rtok password = (Inr (), ?d[n := ?r])"
    using dist n ne(1,2) blob by (rule update_password_at)
  with ran have d': "d' = ?d[n := ?r]"
    by simp
  have others: "reset_token (?d ! m) \<noteq> PyStr rtok" if m: "m < length ?d" "m \<noteq> n" for m
  proof
    assume "reset_token (?d ! m) = PyStr rtok"
    with n m have "map reset_token ?d ! m = map reset_token ?d ! n \<and>
        map reset_token ?d ! m \<noteq> PyNone"
      by simp
    moreover from n m have "m < length (map reset_token ?d)" "n < length (map reset_token ?d)"
      by simp_all
    ultimately have "m = n"
      using uniq unfolding unique_tokens_def by blast
    with m show False by simp
  qed
  have gone: "\<forall>u\<in>set d'. reset_token u \<noteq> PyStr rtok"
  proof
    fix r assume "r \<in> set d'"
    then obtain m where m: "m < length ?d" "r = d' ! m"
      unfolding d' by (auto simp: in_set_conv_nth)
    show "reset_token r \<noteq> PyStr rtok"
    proof (cases "m = n")
      case True
      with m d' show ?thesis by simp
    next
      case False
      with m d' others show ?thesis by simp
    qed
  qed
  have "update_password hashpw salt' d' rtok password' = (Inl (ValueError []), d')"
    using ne(1,3) gone by (rule update_password_unknown)
  with gone show "(\<forall>u\<in>set d'. reset_token u \<noteq> PyStr rtok) \<and>
      update_password hashpw salt' d' rtok password' = (Inl (ValueError []), d')"
    by blast
qed

theorem update_password_token_once_witness:
  "update_password sample_hashpw ''salt'' [alice, bob] token2 ''pw3'' =
     (Inl (ValueError []), [alice, bob]) \<and>
   update_password sample_hashpw ''salt'' (table (run sample_hashpw reset_pending))
     (uuid4_text 0) ''pw2'' =
     (Inr (), [alice, bob\<lparr>hashed_password := PyBytes ''saltpw2'', reset_token := PyNone\<rparr>]) \<and>
   update_password sample_hashpw ''salt''
     [alice, bob\<lparr>hashed_password := PyBytes ''saltpw2'', reset_token := PyNone\<rparr>]
     (uuid4_text 0) ''pw3'' =
     (Inl (ValueError []), [alice, bob\<lparr>hashed_password := PyBytes ''saltpw2'', reset_token := PyNone\<rparr>])"
proof -
  let ?d' = "[alice, bob\<lparr>hashed_password := PyBytes ''saltpw2'', reset_token := PyNone\<rparr>]"
  have ne: "token2 \<noteq> []" "uuid4_text 0 \<noteq> []" "''pw2'' \<noteq> []" "''pw3'' \<noteq> []"
    by (simp_all add: token2_def uuid4_text_nonempty)
  have unknown: "\<forall>u\<in>set [alice, bob]. reset_token u \<noteq> PyStr token2"
    by (simp add: alice_def bob_def)
  have first: "update_password sample_hashpw ''salt'' (table (run sample_hashpw reset_pending))
      (uuid4_text 0) ''pw2'' = (Inr (), ?d')"
    using ne(2)
    by (simp add: run_reset_pending update_password_def find_by_reset update_user_def find_by_id
        column_names_def hash_password_auth_def sample_hashpw_def alice_def bob_def)
  from ne unknown
    update_password_token_once [where rtok = token2 and password = "''pw3''" and d = "[alice, bob]"
      and hashpw = sample_hashpw and salt = "''salt''"]
  have 1: "update_password sample_hashpw ''salt'' [alice, bob] token2 ''pw3'' =
     (Inl (ValueError []), [alice, bob])"
    by blast
  from ne first
    update_password_token_once [where rtok = "uuid4_text 0" and password = "''pw2''"
      and password' = "''pw3''" and hashpw = sample_hashpw and salt = "''salt''"
      and salt' = "''salt''" and calls = reset_pending and d' = ?d']
  have 2: "update_password sample_hashpw ''salt'' ?d' (uuid4_text 0) ''pw3'' =
     (Inl (ValueError []), ?d')"
    by blast
  from 1 first 2 show ?thesis by blast
qed

text \<open>
  The guard on the password comes first: with an empty password the call returns
  without raising, although the token is not empty and no row holds it, be it a token
  that was never issued or the token that the reset above has used up.
\<close>

theorem update_password_empty_password_returns:
  "update_password sample_hashpw ''salt'' [alice, bob] token2 [] = (Inr (), [alice, bob]) \<and>
   update_password sample_hashpw ''salt''
     [alice, bob\<lparr>hashed_password := PyBytes ''saltpw2'', reset_token := PyNone\<rparr>]
     (uuid4_text 0) [] =
     (Inr (), [alice, bob\<lparr>hashed_password := PyBytes ''saltpw2'', reset_token := PyNone\<rparr>])"
  by (simp add: update_password_def)

section \<open>One session per user\<close>

lemma create_session_at:
  assumes "distinct (map id_col d)" "n < length d" "email (d ! n) = PyStr em"
    "\<forall>m<n. email (d ! m) \<noteq> PyStr em"
  shows "create_session tok d em = (Inr (Some tok), d[n := (d ! n)\<lparr>session_id := PyStr tok\<rparr>])"
proof -
  let ?kw = "[(''session_id'', PyStr tok)]"
  have "first_match d [(''email'', PyStr em)] = Some (d ! n)"
    using assms(2,3,4) by (intro first_match_at) auto
  then have "create_session tok d em =
      (case update_user d (id_col (d ! n)) ?kw of
         (Inl e, d') \<Rightarrow> (Inl e, d')
       | (Inr _, d') \<Rightarrow> (Inr (Some tok), d'))"
    by (simp add: create_session_def find_by_email)
  moreover have "\<not> has_invalid_key ?kw"
    by (simp add: column_names_def)
  then have "update_user d (id_col (d ! n)) ?kw = (Inr (), d[n := set_fields (d ! n) ?kw])"
    using assms(1,2) by (intro update_user_at)
  ultimately show ?thesis by simp
qed

lemma session_lookup_at:
  assumes "n < length d" "session_id (d ! n) = PyStr tok" "tok \<noteq> []"
    "\<forall>m<n. session_id (d ! m) \<noteq> PyStr tok"
  shows "get_user_from_session_id d (PyStr tok) = Inr (Some (d ! n))"
proof -
  have "first_match d [(''session_id'', PyStr tok)] = Some (d ! n)"
    using assms(1,2,4) by (intro first_match_at) auto
  with assms(3) show ?thesis
    by (simp add: get_user_from_session_id_def find_by_session)
qed

lemma session_lookup_none:
  assumes "\<forall>r\<in>set d. session_id r \<noteq> PyStr tok"
  shows "get_user_from_session_id d (PyStr tok) = Inr None"
proof -
  from assms have "first_match d [(''session_id'', PyStr tok)] = None"
    by (simp add: first_match_None_iff)
  then show ?thesis
    by (simp add: get_user_from_session_id_def find_by_session)
qed

lemma create_session_fresh_twice:
  assumes dist: "distinct (map id_col d)"
    and found: "find_user_by d [(''email'', PyStr em)] = Inr u"
    and ne: "t1 \<noteq> []" "t2 \<noteq> []" and differ: "t1 \<noteq> t2"
    and unused: "\<forall>r\<in>set d. session_id r \<noteq> PyStr t1 \<and> session_id r \<noteq> PyStr t2"
  shows "\<exists>n<length d. d ! n = u \<and>
           create_session t1 d em = (Inr (Some t1), d[n := u\<lparr>session_id := PyStr t1\<rparr>]) \<and>
           find_user_by (d[n := u\<lparr>session_id := PyStr t1\<rparr>]) [(''email'', PyStr em)] =
             Inr (u\<lparr>session_id := PyStr t1\<rparr>) \<and>
           create_session t2 (d[n := u\<lparr>session_id := PyStr t1\<rparr>]) em =
             (Inr (Some t2), d[n := u\<lparr>session_id := PyStr t2\<rparr>]) \<and>
           get_user_from_session_id (d[n := u\<lparr>session_id := PyStr t1\<rparr>]) (PyStr t1) =
             Inr (Some (u\<lparr>session_id := PyStr t1\<rparr>)) \<and>
           get_user_from_session_id (d[n := u\<lparr>session_id := PyStr t2\<rparr>]) (PyStr t1) = Inr None \<and>
           get_user_from_session_id (d[n := u\<lparr>session_id := PyStr t2\<rparr>]) (PyStr t2) =
             Inr (Some (u\<lparr>session_id := PyStr t2\<rparr>))"
proof -
  from found have "first_match d [(''email'', PyStr em)] = Some u"
    by (auto simp: find_by_email split: option.splits)
  then obtain n where n: "n < length d" "u = d ! n" "email (d ! n) = PyStr em"
      "\<forall>m<n. email (d ! m) \<noteq> PyStr em"
    unfolding first_match_index matches_email by blast
  let ?d1 = "d[n := u\<lparr>session_id := PyStr t1\<rparr>]"
  let ?d2 = "d[n := u\<lparr>session_id := PyStr t2\<rparr>]"
  have first: "create_session t1 d em = (Inr (Some t1), ?d1)"
    using create_session_at [OF dist n(1,3,4)] n(2) by simp
  have dist1: "distinct (map id_col ?d1)"
    using dist n(2) by (simp add: map_col_update)
  have len1: "n < length ?d1"
    using n(1) by simp
  have at1: "?d1 ! n = u\<lparr>session_id := PyStr t1\<rparr>"
    using n(1) by simp
  have email1: "email (?d1 ! n) = PyStr em"
    using at1 n(2,3) by simp
  have before1: "\<forall>m<n. email (?d1 ! m) \<noteq> PyStr em"
    using n(4) by simp
  have "first_match ?d1 [(''email'', PyStr em)] = Some (?d1 ! n)"
    using len1 email1 before1 by (intro first_match_at) auto
  then have found1: "find_user_by ?d1 [(''email'', PyStr em)] = Inr (u\<lparr>session_id := PyStr t1\<rparr>)"
    using at1 by (simp add: find_by_email)
  have "create_session t2 ?d1 em =
      (Inr (Some t2), ?d1[n := (?d1 ! n)\<lparr>session_id := PyStr t2\<rparr>])"
    using dist1 len1 email1 before1 by (rule create_session_at)
  then have second: "create_session t2 ?d1 em = (Inr (Some t2), ?d2)"
    using at1 by simp
  have old: "\<forall>m<length d. session_id (d ! m) \<noteq> PyStr t1 \<and> session_id (d ! m) \<noteq> PyStr t2"
    using unused by simp
  have look1: "get_user_from_session_id ?d1 (PyStr t1) = Inr (Some (u\<lparr>session_id := PyStr t1\<rparr>))"
  proof -
    have "get_user_from_session_id ?d1 (PyStr t1) = Inr (Some (?d1 ! n))"
      using len1 ne(1) n(1) old at1 by (intro session_lookup_at) auto
    with at1 show ?thesis by simp
  qed
  have at2: "?d2 ! n = u\<lparr>session_id := PyStr t2\<rparr>"
    using n(1) by simp
  have look2: "get_user_from_session_id ?d2 (PyStr t2) = Inr (Some (u\<lparr>session_id := PyStr t2\<rparr>))"
  proof -
    have "get_user_from_session_id ?d2 (PyStr t2) = Inr (Some (?d2 ! n))"
      using ne(2) n(1) old at2 by (intro session_lookup_at) auto
    with at2 show ?thesis by simp
  qed
  have gone: "get_user_from_session_id ?d2 (PyStr t1) = Inr None"
  proof (rule session_lookup_none, rule ballI)
    fix r assume "r \<in> set ?d2"
    then have "r = u\<lparr>session_id := PyStr t2\<rparr> \<or> r \<in> set d"
      using set_update_subset_insert [of d n] by auto
    then show "session_id r \<noteq> PyStr t1"
      using differ unused by auto
  qed
  from n(1,2) first found1 second look1 gone look2 show ?thesis by blast
qed

lemma service_create_session_found:
  assumes "find_user_by (table s) [(''email'', PyStr em)] = Inr u"
    and "create_session (uuid4_text (draws s)) (table s) em = (r, d')"
  shows "service_create_session s em = (r, \<lparr>table = d', draws = Suc (draws s)\<rparr>)"
  using assms by (simp add: service_create_session_def)

lemma unused_text:
  assumes "tokens_below k vs" "k \<le> j"
  shows "PyStr (uuid4_text j) \<notin> set vs"
proof
  assume "PyStr (uuid4_text j) \<in> set vs"
  with assms(1) obtain i where "i < k" "uuid4_text j = uuid4_text i"
    unfolding tokens_below_def by auto
  then have "j < k"
    using uuid4_text_inj by blast
  with assms(2) show False by simp
qed

text \<open>
  C2. In every run of the service and for every registered user, two calls of
  \<open>create_session\<close> for the user's email return two tokens \<open>t1\<close> and then \<open>t2\<close>;
  the second overwrites the first in the user's row. After the first call \<open>t1\<close>
  resolves to the user; after the second, \<open>t1\<close> resolves to nothing and \<open>t2\<close>
  resolves to the user's row.
\<close>

theorem create_session_twice:
  assumes "find_user_by (table (run hashpw calls)) [(''email'', PyStr em)] = Inr u"
  shows "\<exists>t1 t2 s1 s2.
           service_create_session (run hashpw calls) em = (Inr (Some t1), s1) \<and>
           service_create_session s1 em = (Inr (Some t2), s2) \<and>
           get_user_from_session_id (table s1) (PyStr t1) = Inr (Some (u\<lparr>session_id := PyStr t1\<rparr>)) \<and>
           get_user_from_session_id (table s2) (PyStr t1) = Inr None \<and>
           get_user_from_session_id (table s2) (PyStr t2) = Inr (Some (u\<lparr>session_id := PyStr t2\<rparr>)) \<and>
           u\<lparr>session_id := PyStr t2\<rparr> \<in> set (table s2)"
proof -
  let ?s = "run hashpw calls"
  let ?d = "table ?s"
  let ?k = "draws ?s"
  let ?t1 = "uuid4_text ?k"
  let ?t2 = "uuid4_text (Suc ?k)"
  have ok: "service_ok ?s"
    by (rule service_ok_run)
  then have dist: "distinct (map id_col ?d)"
    and below: "tokens_below ?k (map session_id ?d)"
    by (simp_all add: service_ok_def)
  have ne: "?t1 \<noteq> []" "?t2 \<noteq> []"
    by (rule uuid4_text_nonempty)+
  have differ: "?t1 \<noteq> ?t2"
    using uuid4_text_inj [of ?k "Suc ?k"] by auto
  have "PyStr ?t1 \<notin> set (map session_id ?d)"
    using below by (rule unused_text) simp
  moreover have "PyStr ?t2 \<notin> set (map session_id ?d)"
    using below by (rule unused_text) simp
  ultimately
  have unused: "\<forall>r\<in>set ?d. session_id r \<noteq> PyStr ?t1 \<and> session_id r \<noteq> PyStr ?t2"
    by (metis image_eqI list.set_map)
  from create_session_fresh_twice [OF dist assms ne differ unused]
  obtain n where n: "n < length ?d"
    and first: "create_session ?t1 ?d em = (Inr (Some ?t1), ?d[n := u\<lparr>session_id := PyStr ?t1\<rparr>])"
    and found1: "find_user_by (?d[n := u\<lparr>session_id := PyStr ?t1\<rparr>]) [(''email'', PyStr em)] =
             Inr (u\<lparr>session_id := PyStr ?t1\<rparr>)"
    and second: "create_session ?t2 (?d[n := u\<lparr>session_id := PyStr ?t1\<rparr>]) em =
             (Inr (Some ?t2), ?d[n := u\<lparr>session_id := PyStr ?t2\<rparr>])"
    and look1: "get_user_from_session_id (?d[n := u\<lparr>session_id := PyStr ?t1\<rparr>]) (PyStr ?t1) =
             Inr (Some (u\<lparr>session_id := PyStr ?t1\<rparr>))"
    and gone: "get_user_from_session_id (?d[n := u\<lparr>session_id := PyStr ?t2\<rparr>]) (PyStr ?t1) = Inr None"
    and look2: "get_user_from_session_id (?d[n := u\<lparr>session_id := PyStr ?t2\<rparr>]) (PyStr ?t2) =
             Inr (Some (u\<lparr>session_id := PyStr ?t2\<rparr>))"
    by blast
  let ?s1 = "\<lparr>table = ?d[n := u\<lparr>session_id := PyStr ?t1\<rparr>], draws = Suc ?k\<rparr>"
  let ?s2 = "\<lparr>table = ?d[n := u\<lparr>session_id := PyStr ?t2\<rparr>], draws = Suc (Suc ?k)\<rparr>"
  have call1: "service_create_session ?s em = (Inr (Some ?t1), ?s1)"
    using assms first by (rule service_create_session_found)
  have call2: "service_create_session ?s1 em = (Inr (Some ?t2), ?s2)"
    using service_create_session_found [of ?s1 em "u\<lparr>session_id := PyStr ?t1\<rparr>"
        "Inr (Some ?t2)" "?d[n := u\<lparr>session_id := PyStr ?t2\<rparr>]"]
      found1 second by simp
  have mem: "u\<lparr>session_id := PyStr ?t2\<rparr> \<in> set (table ?s2)"
    using n by (simp add: set_update_memI)
  from call1 call2 look1 gone look2 mem show ?thesis
    by (intro exI [of _ ?t1] exI [of _ ?t2] exI [of _ ?s1] exI [of _ ?s2]) simp
qed

theorem create_session_twice_witness:
  "\<exists>t1 t2 s1 s2.
      service_create_session (run sample_hashpw two_users) ''b@x.com'' = (Inr (Some t1), s1) \<and>
      service_create_session s1 ''b@x.com'' = (Inr (Some t2), s2) \<and>
      get_user_from_session_id (table s1) (PyStr t1) = Inr (Some (bob\<lparr>session_id := PyStr t1\<rparr>)) \<and>
      get_user_from_session_id (table s2) (PyStr t1) = Inr None \<and>
      get_user_from_session_id (table s2) (PyStr t2) = Inr (Some (bob\<lparr>session_id := PyStr t2\<rparr>)) \<and>
      bob\<lparr>session_id := PyStr t2\<rparr> \<in> set (table s2)"
proof -
  have found: "find_user_by (table (run sample_hashpw two_users)) [(''email'', PyStr ''b@x.com'')] =
      Inr bob"
    by (simp add: run_two_users find_by_email alice_def bob_def)
  show ?thesis
    by (rule create_session_twice [OF found])
qed

end
